theory Spec2Isabelle
  imports Complex_Main "HOL-Library.Word" "HOL-Library.Signed_Division"
begin

unbundle bit_operations_syntax

section \<open>Queryguard: the per-connection query interceptor of proxy.go\<close>

text \<open>
  A shallow embedding of \<^verbatim>\<open>src/proxy.go\<close>. Go strings are byte strings and are modelled
  as \<^typ>\<open>string\<close>; wire data is a list of bytes. A panic of the Go
  runtime (index out of range, failed type assertion, nil dereference) is a value of its own
  type, \<open>Panic\<close>, apart from the errors a function returns. Logging is left out: it has no
  effect on any value the program computes.
\<close>

subsection \<open>Bytes, strings and the helpers of package strings and bytes\<close>

type_synonym byte = "8 word"

definition char_of_byte :: "byte \<Rightarrow> char" where
  "char_of_byte w =
     Char (bit w 0) (bit w 1) (bit w 2) (bit w 3) (bit w 4) (bit w 5) (bit w 6) (bit w 7)"

text \<open>Go's conversions \<^verbatim>\<open>[]byte(s)\<close> and \<^verbatim>\<open>string(b)\<close>.\<close>

definition bytes_of :: "string \<Rightarrow> byte list" where
  "bytes_of s = map of_char s"

definition string_of :: "byte list \<Rightarrow> string" where
  "string_of b = map char_of_byte b"

text \<open>\<^verbatim>\<open>strings.TrimLeft(s, cutset)\<close> and \<^verbatim>\<open>strings.Trim(s, cutset)\<close>: the latter strips the
  cutset from both ends.\<close>

definition TrimLeft :: "string \<Rightarrow> string \<Rightarrow> string" where
  "TrimLeft s cutset = dropWhile (\<lambda>c. c \<in> set cutset) s"

definition TrimRight :: "string \<Rightarrow> string \<Rightarrow> string" where
  "TrimRight s cutset = rev (dropWhile (\<lambda>c. c \<in> set cutset) (rev s))"

definition Trim :: "string \<Rightarrow> string \<Rightarrow> string" where
  "Trim s cutset = TrimRight (TrimLeft s cutset) cutset"

text \<open>\<^verbatim>\<open>bytes.HasSuffix\<close> and \<^verbatim>\<open>bytes.Contains\<close>.\<close>

definition HasSuffix :: "byte list \<Rightarrow> byte list \<Rightarrow> bool" where
  "HasSuffix s suffix =
     (length suffix \<le> length s \<and> drop (length s - length suffix) s = suffix)"

fun Contains :: "byte list \<Rightarrow> byte list \<Rightarrow> bool" where
  "Contains [] sub = (sub = [])"
| "Contains (b # s) sub = (take (length sub) (b # s) = sub \<or> Contains s sub)"

text \<open>\<^verbatim>\<open>strings.Join\<close>.\<close>

fun Join :: "string list \<Rightarrow> string \<Rightarrow> string" where
  "Join [] sep = []"
| "Join [a] sep = a"
| "Join (a # b # rest) sep = a @ sep @ Join (b # rest) sep"

text \<open>\<^verbatim>\<open>strings.SplitN(s, ".", 2)\<close>: one element when there is no separator, otherwise the
  text before the first separator and everything after it.\<close>

definition SplitN2 :: "string \<Rightarrow> char \<Rightarrow> string list" where
  "SplitN2 s sep =
     (if sep \<in> set s
      then [takeWhile (\<lambda>c. c \<noteq> sep) s, tl (dropWhile (\<lambda>c. c \<noteq> sep) s)]
      else [s])"

subsection \<open>Errors\<close>

text \<open>
  The error values that reach the code: the two sentinels of \<^verbatim>\<open>io\<close>, a \<^verbatim>\<open>net.Error\<close> with
  its \<^verbatim>\<open>Timeout()\<close> flag and text, an error made by \<^verbatim>\<open>fmt.Errorf\<close> or by a library,
  and the two sentinels of the proxy. A runtime panic is not an error value.
\<close>

datatype error =
    EOF
  | ErrUnexpectedEOF
  | NetError bool string
  | Errorf string
  | errNormalClose
  | errClientReadTimeout

datatype panic = Panic string

fun Error :: "error \<Rightarrow> string" where
  "Error EOF = ''EOF''"
| "Error ErrUnexpectedEOF = ''unexpected EOF''"
| "Error (NetError t msg) = msg"
| "Error (Errorf msg) = msg"
| "Error errNormalClose = ''normal close''"
| "Error errClientReadTimeout = ''client read timeout''"

text \<open>The test \<^verbatim>\<open>ne, ok := err.(net.Error); ok && ne.Timeout()\<close>.\<close>

fun is_timeout :: "error \<Rightarrow> bool" where
  "is_timeout (NetError t msg) = t"
| "is_timeout e = False"

subsection \<open>Documents\<close>

text \<open>
  A \<^verbatim>\<open>float64\<close> is used only through the conversion from an integer and the comparison
  \<^verbatim>\<open>>\<close>, which is exact: a finite value is its real number, and NaN compares false with
  everything.
\<close>

datatype float64 = NaN | NegInf | Finite real | PosInf

fun float64_gt :: "float64 \<Rightarrow> float64 \<Rightarrow> bool" where
  "float64_gt NaN y = False"
| "float64_gt x NaN = False"
| "float64_gt NegInf y = False"
| "float64_gt x NegInf = True"
| "float64_gt PosInf PosInf = False"
| "float64_gt PosInf y = True"
| "float64_gt (Finite a) PosInf = False"
| "float64_gt (Finite a) (Finite b) = (a > b)"

text \<open>
  The values \<^verbatim>\<open>bson.Unmarshal\<close> puts into a \<^verbatim>\<open>bson.D\<close>: a double is a \<^verbatim>\<open>float64\<close>, a 32-bit
  integer a Go \<^verbatim>\<open>int\<close>, a 64-bit integer an \<^verbatim>\<open>int64\<close>, a nested document again a \<^verbatim>\<open>bson.D\<close>
  (a list of \<^verbatim>\<open>DocElem{Name, Value}\<close>), an array a \<^verbatim>\<open>[]interface{}\<close>, null the nil
  interface.
\<close>

datatype bson =
    Float64 float64
  | String string
  | D "(string \<times> bson) list"
  | Array "bson list"
  | Bool bool
  | Null
  | Int32 int
  | Int64 int
  | Opaque string

type_synonym DocElem = "string \<times> bson"
type_synonym doc = "DocElem list"

abbreviation Name :: "DocElem \<Rightarrow> string" where
  "Name e \<equiv> fst e"

abbreviation Value :: "DocElem \<Rightarrow> bson" where
  "Value e \<equiv> snd e"

subsection \<open>The proxy and its control channel\<close>

text \<open>
  \<^verbatim>\<open>time.Duration\<close> is an \<^verbatim>\<open>int64\<close> count of nanoseconds; \<open>wrap64\<close> is the wrap-around of its
  arithmetic.
\<close>

type_synonym Duration = int

definition wrap64 :: "int \<Rightarrow> int" where
  "wrap64 x = (x + 2 ^ 63) mod 2 ^ 64 - 2 ^ 63"

definition Millisecond :: Duration where
  "Millisecond = 1000000"

definition Second :: Duration where
  "Second = 1000000000"

text \<open>
  The control channel is the \<^verbatim>\<open>mgo\<close> session. Each call returns what the Go call returns, a
  value and an error: the document count, the indexes (of an \<^verbatim>\<open>mgo.Index\<close> only \<^verbatim>\<open>Key\<close> is
  read), the \<^verbatim>\<open>opid\<close>s of the operations found in \<^verbatim>\<open>$cmd.sys.inprog\<close>, and the outcome of
  \<^verbatim>\<open>$cmd.sys.killop\<close>.
\<close>

record Index =
  Key :: "string list"

record backChannel =
  Count :: "string \<Rightarrow> string \<Rightarrow> int \<times> error option"
  Indexes :: "string \<Rightarrow> string \<Rightarrow> Index list \<times> error option"
  FindInprog :: "(string \<rightharpoonup> bson) \<Rightarrow> bson list \<times> error option"
  KillOp :: "bson \<Rightarrow> error option"

record Proxy =
  servers :: "string list"
  backChannel :: backChannel
  clientIdleTimeout :: Duration
  messageTimeout :: Duration

subsection \<open>Connections\<close>

text \<open>
  A connection as the proxy sees it. Its peer is given in advance: \<open>rd\<close> are the bytes that
  arrive, \<open>rd_err\<close> is the error a read reports once they are used up (\<^verbatim>\<open>io.EOF\<close> when the
  peer closed, a timeout when the deadline passes first); \<open>wr_room\<close> is how many more bytes
  the peer accepts before a write fails with \<open>wr_err\<close> (\<open>None\<close>: every write succeeds).
  \<open>events\<close> records what the proxy did to the connection, in order. \<open>RemoteAddr\<close> is \<open>None\<close>
  for an \<^verbatim>\<open>io.ReadWriter\<close> that is not a \<^verbatim>\<open>net.Conn\<close>.
\<close>

datatype event =
    SetDeadline Duration
  | SetReadDeadline Duration
  | Wrote "byte list"
  | Close

record conn =
  RemoteAddr :: "string option"
  rd :: "byte list"
  rd_err :: error
  wr_room :: "nat option"
  wr_err :: error
  events :: "event list"

subsection \<open>What lies outside the program\<close>

text \<open>
  The libraries and the environment the code calls: \<^verbatim>\<open>bson.Unmarshal\<close> into a \<^verbatim>\<open>bson.D\<close> and
  \<^verbatim>\<open>bson.Marshal\<close>; the string \<^verbatim>\<open>uuid.New("Q")\<close> returns; the time that
  \<^verbatim>\<open>time.Now().Sub(queryStart)\<close> measures and the value of
  \<^verbatim>\<open>math.Floor(duration.Seconds()) - 1\<close>; \<^verbatim>\<open>Duration.String\<close>; the draws of \<^verbatim>\<open>math/rand\<close>
  (\<^verbatim>\<open>rand.Intn(n)\<close> is the draw reduced into \<open>[0, n)\<close>); the outcome of the \<open>k\<close>-th
  \<^verbatim>\<open>net.Dial\<close>; and the part of \<^verbatim>\<open>strings.EqualFold\<close> that works on runes with the tables of
  package \<^verbatim>\<open>unicode\<close> (see \<open>EqualFold\<close> below).
\<close>

record world =
  Unmarshal :: "byte list \<Rightarrow> error + doc"
  Marshal :: "doc \<Rightarrow> byte list"
  uuid_New :: string
  elapsed :: Duration
  Floor_Seconds_minus_1 :: "Duration \<Rightarrow> float64"
  Duration_String :: "Duration \<Rightarrow> string"
  rand_draw :: "nat \<Rightarrow> nat"
  Dial :: "nat \<Rightarrow> string \<Rightarrow> error + conn"
  EqualFold_hasUnicode :: "string \<Rightarrow> string \<Rightarrow> bool"

subsection \<open>strings.EqualFold\<close>

text \<open>
  \<^verbatim>\<open>strings.EqualFold(s, t)\<close> as the library has it. Its first loop walks both strings byte
  by byte while both bytes are ASCII: equal bytes pass, and so does an upper-case letter
  \<open>A\<close> to \<open>Z\<close> against its lower-case letter; when one string ends, the result is whether
  both have ended. At the first position where one of the two bytes is not ASCII the
  function jumps to its label \<^verbatim>\<open>hasUnicode\<close> and compares the rest of both strings rune by
  rune under Unicode simple case folding (\<^verbatim>\<open>unicode.SimpleFold\<close>): there U+017F folds to
  \<open>s\<close> and U+212A to \<open>k\<close>. That second part, with the Unicode tables, is the world's
  \<open>EqualFold_hasUnicode\<close>, applied to the two rests.
\<close>

fun EqualFold :: "world \<Rightarrow> string \<Rightarrow> string \<Rightarrow> bool" where
  "EqualFold w [] t = (t = [])"
| "EqualFold w (sr # s) [] = False"
| "EqualFold w (sr # s) (tr # t) =
     (if (of_char sr :: nat) \<ge> 128 \<or> (of_char tr :: nat) \<ge> 128
      then EqualFold_hasUnicode w (sr # s) (tr # t)
      else if tr = sr then EqualFold w s t
      else if 65 \<le> min (of_char sr :: nat) (of_char tr)
              \<and> min (of_char sr :: nat) (of_char tr) \<le> 90
              \<and> max (of_char sr :: nat) (of_char tr) = min (of_char sr) (of_char tr) + 32
      then EqualFold w s t
      else False)"

subsection \<open>keyIndex, getKey\<close>

fun keyIndex_from :: "world \<Rightarrow> nat \<Rightarrow> doc \<Rightarrow> string \<Rightarrow> int" where
  "keyIndex_from w i [] k = - 1"
| "keyIndex_from w i (v # d) k =
     (if EqualFold w (TrimLeft (Name v) ''$'') k then int i else keyIndex_from w (Suc i) d k)"

definition keyIndex :: "world \<Rightarrow> doc \<Rightarrow> string \<Rightarrow> int" where
  "keyIndex w d k = keyIndex_from w 0 d k"

text \<open>\<open>None\<close> is the nil interface that \<^verbatim>\<open>getKey\<close> returns for a missing key.\<close>

definition getKey :: "world \<Rightarrow> doc \<Rightarrow> string \<Rightarrow> bson option" where
  "getKey w d k =
     (let index = keyIndex w d k in if index \<ge> 0 then Some (Value (d ! nat index)) else None)"

subsection \<open>The query mutator\<close>

definition maxTimeMS_of :: "Proxy \<Rightarrow> float64" where
  "maxTimeMS_of p = Finite (real_of_int (wrap64 (messageTimeout p - 1 * Second) sdiv Millisecond))"

definition queryGuard :: "string \<Rightarrow> string \<Rightarrow> DocElem" where
  "queryGuard remoteAddr queryID =
     (''$queryGuard'', D [(''remoteaddr'', String remoteAddr), (''track'', String queryID)])"

definition mutateQuery :: "world \<Rightarrow> Proxy \<Rightarrow> doc \<Rightarrow> string \<Rightarrow> string \<Rightarrow> panic + doc" where
  "mutateQuery w p query0 remoteAddr queryID =
     (let query =
            (if \<not> (length query0 > 1 \<and> TrimLeft (Name (query0 ! 0)) ''$'' = ''query'')
             then [(''$query'', D query0)]
             else query0);
          maxTimeMS = maxTimeMS_of p;
          index = keyIndex w query ''maxTimeMS''
      in if index \<ge> 0 then
           (case Value (query ! nat index) of
              Float64 v \<Rightarrow>
                Inr ((if float64_gt v maxTimeMS
                      then query[nat index := (Name (query ! nat index), Float64 maxTimeMS)]
                      else query)
                     @ [queryGuard remoteAddr queryID])
            | _ \<Rightarrow> Inl (Panic ''interface conversion: interface {} is not float64''))
         else
           Inr (query @ [(''$maxTimeMS'', Float64 maxTimeMS)] @ [queryGuard remoteAddr queryID]))"

subsection \<open>The query inspector\<close>

definition firstIndexableField :: "world \<Rightarrow> doc \<Rightarrow> panic + string" where
  "firstIndexableField w query =
     (case query of
        [] \<Rightarrow> Inl (Panic ''index out of range'')
      | q0 # rest \<Rightarrow>
          if TrimLeft (Name q0) ''$'' = ''query'' \<and> length query > 1 then
            (case (case Value q0 of
                     D v \<Rightarrow> (case v of [] \<Rightarrow> None | v0 # vs \<Rightarrow> Some (Name v0))
                   | _ \<Rightarrow> None) of
               Some name \<Rightarrow> Inr name
             | None \<Rightarrow>
                 (case getKey w query ''orderby'' of
                    Some (D t) \<Rightarrow>
                      (case t of [] \<Rightarrow> Inl (Panic ''index out of range'') | t0 # ts \<Rightarrow> Inr (Name t0))
                  | Some (String t) \<Rightarrow> Inr (Trim t ''-'')
                  | _ \<Rightarrow> Inr (Name q0)))
          else Inr (Name q0))"

fun index_loop :: "world \<Rightarrow> Index list \<Rightarrow> string \<Rightarrow> panic + bool" where
  "index_loop w [] indexFieldName = Inr False"
| "index_loop w (index # indexes) indexFieldName =
     (case Key index of
        [] \<Rightarrow> Inl (Panic ''index out of range'')
      | k0 # ks \<Rightarrow>
          if EqualFold w (Trim k0 ''-'') indexFieldName then Inr True
          else index_loop w indexes indexFieldName)"

definition checkForIndex :: "world \<Rightarrow> Proxy \<Rightarrow> string \<Rightarrow> string \<Rightarrow> doc \<Rightarrow> panic + bool" where
  "checkForIndex w p databaseName collectionName query =
     (let (count, err) = Count (backChannel p) databaseName collectionName in
      if count = 0 then Inr True
      else
        let (indexes, err) = Indexes (backChannel p) databaseName collectionName in
        case firstIndexableField w query of
          Inl e \<Rightarrow> Inl e
        | Inr indexFieldName \<Rightarrow> index_loop w indexes indexFieldName)"


subsection \<open>The wire codec\<close>

text \<open>
  The message header, its opcodes and the readers \<^verbatim>\<open>readHeader\<close>, \<^verbatim>\<open>readCString\<close>,
  \<^verbatim>\<open>readDocument\<close> and \<^verbatim>\<open>copyMessage\<close> are declared in a file of the repository that is
  not under \<^verbatim>\<open>src/\<close>; \<^verbatim>\<open>proxy.go\<close> has only the constant \<^verbatim>\<open>headerLen\<close>.
\<close>

definition headerLen :: nat where
  "headerLen = 16"

text \<open>Modelled from the spec: the type \<^verbatim>\<open>messageHeader\<close> is missing. A header is a record of
  four signed 32-bit integers: total length, request id, response-to id, opcode.\<close>

record messageHeader =
  MessageLength :: "32 word"
  RequestID :: "32 word"
  ResponseTo :: "32 word"
  OpCode :: "32 word"

text \<open>Modelled from the spec: the constant \<^verbatim>\<open>OpReply\<close> is missing. The spec names the opcode;
  its number is that of the wire protocol.\<close>

definition OpReply :: "32 word" where
  "OpReply = 1"

text \<open>Modelled from the spec: the constant \<^verbatim>\<open>OpQuery\<close> is missing, as above.\<close>

definition OpQuery :: "32 word" where
  "OpQuery = 2004"

text \<open>Modelled from the spec: the constant \<^verbatim>\<open>OpGetMore\<close> is missing, as above.\<close>

definition OpGetMore :: "32 word" where
  "OpGetMore = 2005"

text \<open>Modelled from the spec: the method \<^verbatim>\<open>HasResponse\<close> is missing. It is true for Query and
  GetMore and false for the other opcodes.\<close>

definition HasResponse :: "32 word \<Rightarrow> bool" where
  "HasResponse c = (c = OpQuery \<or> c = OpGetMore)"

text \<open>Modelled from the spec: the integer codec of the header is missing. All integers are
  little-endian.\<close>

definition setInt32 :: "32 word \<Rightarrow> byte list" where
  "setInt32 w = [ucast w, ucast (drop_bit 8 w), ucast (drop_bit 16 w), ucast (drop_bit 24 w)]"

definition getInt32 :: "byte list \<Rightarrow> nat \<Rightarrow> 32 word" where
  "getInt32 b pos =
     ucast (b ! pos) OR push_bit 8 (ucast (b ! (pos + 1)))
       OR push_bit 16 (ucast (b ! (pos + 2))) OR push_bit 24 (ucast (b ! (pos + 3)))"

definition getInt64 :: "byte list \<Rightarrow> nat \<Rightarrow> 64 word" where
  "getInt64 b pos = ucast (getInt32 b pos) OR push_bit 32 (ucast (getInt32 b (pos + 4)))"

text \<open>Modelled from the spec: the methods \<^verbatim>\<open>ToWire\<close> and \<^verbatim>\<open>FromWire\<close> of the header are
  missing. The sixteen bytes are the four fields in order.\<close>

definition ToWire :: "messageHeader \<Rightarrow> byte list" where
  "ToWire h =
     setInt32 (MessageLength h) @ setInt32 (RequestID h) @ setInt32 (ResponseTo h)
       @ setInt32 (OpCode h)"

definition FromWire :: "byte list \<Rightarrow> messageHeader" where
  "FromWire b =
     \<lparr>MessageLength = getInt32 b 0, RequestID = getInt32 b 4, ResponseTo = getInt32 b 8,
      OpCode = getInt32 b 12\<rparr>"

subsection \<open>Reading and writing\<close>

fun written_bytes :: "event list \<Rightarrow> byte list" where
  "written_bytes [] = []"
| "written_bytes (Wrote b # es) = b @ written_bytes es"
| "written_bytes (e # es) = written_bytes es"

text \<open>\<^verbatim>\<open>c.Write(b)\<close> returns the number of bytes written and an error.\<close>

definition Write :: "conn \<Rightarrow> byte list \<Rightarrow> (nat \<times> error option) \<times> conn" where
  "Write c b =
     (case wr_room c of
        None \<Rightarrow> ((length b, None), c\<lparr>events := events c @ [Wrote b]\<rparr>)
      | Some r \<Rightarrow>
          if length b \<le> r
          then ((length b, None), c\<lparr>wr_room := Some (r - length b), events := events c @ [Wrote b]\<rparr>)
          else ((r, Some (wr_err c)), c\<lparr>wr_room := Some 0, events := events c @ [Wrote (take r b)]\<rparr>))"

text \<open>\<^verbatim>\<open>io.ReadFull(c, buf)\<close> for a buffer of \<open>n\<close> bytes.\<close>

definition ReadFull :: "conn \<Rightarrow> nat \<Rightarrow> (error + byte list) \<times> conn" where
  "ReadFull c n =
     (if n \<le> length (rd c) then (Inr (take n (rd c)), c\<lparr>rd := drop n (rd c)\<rparr>)
      else (Inl (if rd c \<noteq> [] \<and> rd_err c = EOF then ErrUnexpectedEOF else rd_err c),
            c\<lparr>rd := []\<rparr>))"

text \<open>\<^verbatim>\<open>io.CopyN(dst, src, n)\<close>: nothing is copied for \<open>n \<le> 0\<close>; a failed write wins over a
  short read, and a short read with no other error is \<^verbatim>\<open>io.EOF\<close>.\<close>

definition CopyN :: "conn \<Rightarrow> conn \<Rightarrow> int \<Rightarrow> error option \<times> conn \<times> conn" where
  "CopyN dst src n =
     (if n \<le> 0 then (None, dst, src)
      else
        let avail = take (nat n) (rd src);
            src' = src\<lparr>rd := drop (nat n) (rd src)\<rparr>;
            ((k, werr), dst') = (if avail = [] then ((0, None), dst) else Write dst avail)
        in case werr of
             Some e \<Rightarrow> (Some e, dst', src')
           | None \<Rightarrow>
               if int (length avail) < n then (Some (rd_err src), dst', src')
               else (None, dst', src'))"

text \<open>Modelled from the spec: the function \<^verbatim>\<open>readHeader\<close> is missing. It reads the sixteen
  bytes of a header; a short read is the error of the stream.\<close>

definition readHeader :: "conn \<Rightarrow> (error + messageHeader) \<times> conn" where
  "readHeader c =
     (case ReadFull c headerLen of
        (Inl e, c') \<Rightarrow> (Inl e, c')
      | (Inr b, c') \<Rightarrow> (Inr (FromWire b), c'))"

text \<open>Modelled from the spec: the method \<^verbatim>\<open>WriteTo\<close> of the header is missing. It writes
  the sixteen bytes of the header.\<close>

definition WriteTo :: "messageHeader \<Rightarrow> conn \<Rightarrow> error option \<times> conn" where
  "WriteTo h c = (case Write c (ToWire h) of ((n, err), c') \<Rightarrow> (err, c'))"

text \<open>Modelled from the spec: the function \<^verbatim>\<open>readCString\<close> is missing. It returns the
  bytes up to and with the terminating zero.\<close>

definition readCString :: "conn \<Rightarrow> (error + byte list) \<times> conn" where
  "readCString c =
     (if 0 \<in> set (rd c)
      then (Inr (takeWhile (\<lambda>b. b \<noteq> 0) (rd c) @ [0]),
            c\<lparr>rd := tl (dropWhile (\<lambda>b. b \<noteq> 0) (rd c))\<rparr>)
      else (Inl (rd_err c), c\<lparr>rd := []\<rparr>))"

text \<open>Modelled from the spec: the function \<^verbatim>\<open>readDocument\<close> is missing. It returns the
  raw bytes of a document with its length prefix; a negative length or one above 48 MiB is
  a framing error.\<close>

definition readDocument :: "conn \<Rightarrow> (error + byte list) \<times> conn" where
  "readDocument c =
     (case ReadFull c 4 of
        (Inl e, c') \<Rightarrow> (Inl e, c')
      | (Inr sizeRaw, c') \<Rightarrow>
          let size = sint (getInt32 sizeRaw 0) in
          if size < 0 \<or> size > 48 * 1024 * 1024 then (Inl (Errorf ''invalid document size''), c')
          else
            (case ReadFull c' (nat size - 4) of
               (Inl e, c'') \<Rightarrow> (Inl e, c'')
             | (Inr rest, c'') \<Rightarrow> (Inr (sizeRaw @ rest), c'')))"

text \<open>Modelled from the spec: the function \<^verbatim>\<open>copyMessage\<close> is missing. It copies one full
  message from \<open>src\<close> to \<open>dst\<close>: its header, then its body.\<close>

definition copyMessage :: "conn \<Rightarrow> conn \<Rightarrow> error option \<times> conn \<times> conn" where
  "copyMessage dst src =
     (case readHeader src of
        (Inl e, src') \<Rightarrow> (Some e, dst, src')
      | (Inr h, src') \<Rightarrow>
          (case WriteTo h dst of
             (Some e, dst') \<Rightarrow> (Some e, dst', src')
           | (None, dst') \<Rightarrow> CopyN dst' src' (sint (MessageLength h) - int headerLen)))"

subsection \<open>The upstream dialer\<close>

datatype dial_event = Dialed string | Slept Duration

text \<open>
  The loop of \<^verbatim>\<open>newServerConn\<close>, by the value of \<^verbatim>\<open>retryCount\<close>; \<open>k\<close> counts the dials made
  so far. \<^verbatim>\<open>p.servers[0]\<close> panics on an empty list.
\<close>

fun newServerConn_loop ::
  "world \<Rightarrow> string list \<Rightarrow> nat \<Rightarrow> Duration \<Rightarrow> string \<Rightarrow> nat
     \<Rightarrow> (panic + error + conn) \<times> dial_event list"
where
  "newServerConn_loop w srvs 0 retrySleep lastServer k =
     (Inr (Inl (Errorf (''Couldn't connect to '' @ lastServer))), [])"
| "newServerConn_loop w srvs (Suc retryCount) retrySleep lastServer k =
     (case srvs of
        [] \<Rightarrow> (Inl (Panic ''index out of range''), [])
      | s0 # rest \<Rightarrow>
          let l = length srvs;
              server = (if l > 1 then srvs ! (rand_draw w k mod (l - 1)) else s0)
          in case Dial w k server of
               Inr c \<Rightarrow> (Inr (Inr c), [Dialed server])
             | Inl err \<Rightarrow>
                 (case newServerConn_loop w srvs retryCount (wrap64 (retrySleep * 2)) server (Suc k) of
                    (r, tr) \<Rightarrow> (r, Dialed server # Slept retrySleep # tr)))"

definition newServerConn ::
  "world \<Rightarrow> Proxy \<Rightarrow> nat \<Rightarrow> (panic + error + conn) \<times> dial_event list" where
  "newServerConn w p k = newServerConn_loop w (servers p) 7 (50 * Millisecond) [] k"

subsection \<open>The synthetic error reply\<close>

definition errorBytes :: "byte list" where
  "errorBytes = [0, 0, 0, 1, 0, 0, 0, 0, 0, 0, 0, 0, 0, 0, 0, 0, 0, 0, 0, 1]"

text \<open>The loop \<^verbatim>\<open>for _, b := range parts\<close> over \<^verbatim>\<open>Write\<close>, which stops at the first error;
  \<open>written\<close> adds up the byte counts.\<close>

fun write_parts :: "conn \<Rightarrow> byte list list \<Rightarrow> nat \<Rightarrow> (nat \<times> error option) \<times> conn" where
  "write_parts c [] written = ((written, None), c)"
| "write_parts c (b # parts) written =
     (case Write c b of
        ((n, Some err), c') \<Rightarrow> ((written, Some err), c')
      | ((n, None), c') \<Rightarrow> write_parts c' parts (written + n))"

text \<open>
  The struct with the fields \<^verbatim>\<open>$err\<close> and \<^verbatim>\<open>code\<close> marshals as the document with these two
  entries; a Go \<^verbatim>\<open>int\<close> is written as a 32-bit integer when it fits.
\<close>

definition errorDoc_of :: "error \<Rightarrow> int \<Rightarrow> doc" where
  "errorDoc_of err code =
     [(''$err'', String (Error err)),
      (''code'', if - (2 ^ 31) \<le> code \<and> code < 2 ^ 31 then Int32 code else Int64 code)]"

definition sendErrorToClient ::
  "world \<Rightarrow> messageHeader \<Rightarrow> conn \<Rightarrow> error \<Rightarrow> int \<Rightarrow> error option \<times> conn" where
  "sendErrorToClient w h client err code =
     (let errorDoc = Marshal w (errorDoc_of err code);
          errorHeader =
            \<lparr>MessageLength = of_nat (headerLen + length errorBytes + length errorDoc),
             RequestID = RequestID h,
             ResponseTo = RequestID h,
             OpCode = OpReply\<rparr>;
          parts = [ToWire errorHeader, errorBytes, errorDoc]
      in case write_parts client parts 0 of ((n, e), client') \<Rightarrow> (e, client'))"


subsection \<open>The query handler and its reactor\<close>

text \<open>\<^verbatim>\<open>splitDatabaseCollection\<close>: \<^verbatim>\<open>split[1]\<close> panics on a name without a dot.\<close>

definition splitDatabaseCollection :: "string \<Rightarrow> panic + string \<times> string" where
  "splitDatabaseCollection fullName =
     (case SplitN2 fullName (CHR ''.'') of
        [s0, s1] \<Rightarrow> Inr (s0, s1)
      | _ \<Rightarrow> Inl (Panic ''index out of range''))"

text \<open>
  \<^verbatim>\<open>flattenQuery\<close>: a \<^verbatim>\<open>bson.D\<close> is walked entry by entry, an entry extends the path by its
  name, and anything else is stored in the filter under the dotted path.
\<close>

fun flattenQuery :: "bson \<Rightarrow> string list \<Rightarrow> (string \<rightharpoonup> bson) \<Rightarrow> (string \<rightharpoonup> bson)" where
  "flattenQuery (D m) name result =
     foldl (\<lambda>r td. flattenQuery (Value td) (name @ [Name td]) r) result m"
| "flattenQuery d name result = result(Join name ''.'' \<mapsto> d)"

text \<open>The calls made on the control channel by the reactor, in order.\<close>

datatype ctl_event = Find "string \<rightharpoonup> bson" | Kill bson

definition cmdCollectionSuffix :: "byte list" where
  "cmdCollectionSuffix = bytes_of ''.$cmd'' @ [0]"

definition indexCollectionSuffix :: "byte list" where
  "indexCollectionSuffix = bytes_of ''.indexes'' @ [0]"

definition systemCollection :: "byte list" where
  "systemCollection = bytes_of ''.system.''"

text \<open>
  The reactor: the body of \<^verbatim>\<open>if err := copyMessage(client, server); err != nil\<close>. The filter
  (a \<^verbatim>\<open>bson.M\<close>, as is the one-entry value of \<open>secs_running\<close>, written here as a document)
  is built from the outer \<^verbatim>\<open>queryID\<close> and the current \<^verbatim>\<open>q\<close>. When the lookup succeeds every
  operation found is killed, the client's deadline is set again if it is a \<^verbatim>\<open>net.Conn\<close>, and
  the synthetic error is written, its own result dropped; the outcome of a kill is only
  logged. The error of \<^verbatim>\<open>copyMessage\<close> is
  returned.
\<close>

definition reactor ::
  "world \<Rightarrow> Proxy \<Rightarrow> messageHeader \<Rightarrow> conn \<Rightarrow> error \<Rightarrow> doc \<Rightarrow> string \<Rightarrow> string
     \<Rightarrow> ctl_event list \<Rightarrow> conn \<times> ctl_event list" where
  "reactor w p h client err q queryID fullCollectionString cl =
     (let duration = elapsed w;
          f0 = [''op'' \<mapsto> String ''query'', ''ns'' \<mapsto> String fullCollectionString];
          f = (if queryID = ''''
               then flattenQuery (D q) [''query'']
                      (f0(''secs_running'' \<mapsto> D [(''$gte'', Float64 (Floor_Seconds_minus_1 w duration))]))
               else f0(''query.$queryGuard.track'' \<mapsto> String queryID))
      in case FindInprog (backChannel p) f of
           (ops, Some bcerr) \<Rightarrow> (client, cl @ [Find f])
         | (ops, None) \<Rightarrow>
             let cl' = cl @ [Find f] @ map Kill ops;
                 client1 = (case RemoteAddr client of
                              Some a \<Rightarrow> client\<lparr>events := events client @ [SetDeadline (messageTimeout p)]\<rparr>
                            | None \<Rightarrow> client);
                 (e, client2) =
                   (if is_timeout err
                    then sendErrorToClient w h client1
                           (Errorf (''Your query exceeded the time limit of ''
                                      @ Duration_String w (messageTimeout p) @ '' and has been killed''))
                           50
                    else sendErrorToClient w h client1
                           (Errorf (''Error: '' @ Error err @ ''. Your query has been killed''))
                           14044)
             in (client2, cl'))"

text \<open>
  The second half of \<^verbatim>\<open>handleQueryRequest\<close>, from the loop that writes \<^verbatim>\<open>parts\<close> to the
  server: the rest of the message is copied, then one response message is copied back, and
  a failure of that copy starts the reactor.
\<close>

definition forwardQuery ::
  "world \<Rightarrow> Proxy \<Rightarrow> messageHeader \<Rightarrow> conn \<Rightarrow> conn \<Rightarrow> byte list list \<Rightarrow> doc \<Rightarrow> string \<Rightarrow> string
     \<Rightarrow> ctl_event list \<Rightarrow> (panic + error option) \<times> conn \<times> conn \<times> ctl_event list" where
  "forwardQuery w p h client server parts q queryID fullCollectionString cl =
     (case write_parts server parts 0 of
        ((written, Some err), server1) \<Rightarrow> (Inr (Some err), client, server1, cl)
      | ((written, None), server1) \<Rightarrow>
          let pending = sint (MessageLength h) - int written in
          (case CopyN server1 client pending of
             (Some err, server2, client2) \<Rightarrow> (Inr (Some err), client2, server2, cl)
           | (None, server2, client2) \<Rightarrow>
               (case copyMessage client2 server2 of
                  (None, client3, server3) \<Rightarrow> (Inr None, client3, server3, cl)
                | (Some err, client3, server3) \<Rightarrow>
                    (case reactor w p h client3 err q queryID fullCollectionString cl of
                       (client4, cl') \<Rightarrow> (Inr (Some err), client4, server3, cl')))))"

text \<open>
  \<^verbatim>\<open>handleQueryRequest\<close>. The outer \<^verbatim>\<open>queryID\<close> is the empty string from its declaration to
  the reactor: the tagging branch declares a variable of its own with \<^verbatim>\<open>queryID := uuid.New("Q")\<close>
  and gives that one to the mutator. \<^verbatim>\<open>q\<close> is assigned the mutated document.
\<close>

definition handleQueryRequest ::
  "world \<Rightarrow> Proxy \<Rightarrow> messageHeader \<Rightarrow> conn \<Rightarrow> conn \<Rightarrow> ctl_event list
     \<Rightarrow> (panic + error option) \<times> conn \<times> conn \<times> ctl_event list" where
  "handleQueryRequest w p h client server cl =
     (let remoteAddr = (case RemoteAddr client of Some a \<Rightarrow> a | None \<Rightarrow> ''unknown'');
          queryID = ''''
      in case ReadFull client 4 of
           (Inl err, c1) \<Rightarrow> (Inr (Some err), c1, server, cl)
         | (Inr flags, c1) \<Rightarrow>
       (case readCString c1 of
           (Inl err, c2) \<Rightarrow> (Inr (Some err), c2, server, cl)
         | (Inr fullCollectionName, c2) \<Rightarrow>
       let fullCollectionString = string_of (butlast fullCollectionName) in
       (case ReadFull c2 8 of
           (Inl err, c3) \<Rightarrow> (Inr (Some err), c3, server, cl)
         | (Inr twoInt32, c3) \<Rightarrow>
       (case readDocument c3 of
           (Inl err, c4) \<Rightarrow> (Inr (Some err), c4, server, cl)
         | (Inr queryDoc, c4) \<Rightarrow>
       (case Unmarshal w queryDoc of
           Inl err \<Rightarrow> (Inr (Some err), c4, server, cl)
         | Inr q \<Rightarrow>
       if \<not> (HasSuffix fullCollectionName cmdCollectionSuffix
              \<or> HasSuffix fullCollectionName indexCollectionSuffix
              \<or> Contains fullCollectionName systemCollection) \<and> length q > 0
       then
         (case splitDatabaseCollection fullCollectionString of
            Inl pn \<Rightarrow> (Inl pn, c4, server, cl)
          | Inr (database, collection) \<Rightarrow>
         (case checkForIndex w p database collection q of
            Inl pn \<Rightarrow> (Inl pn, c4, server, cl)
          | Inr False \<Rightarrow>
              (case sendErrorToClient w h c4
                      (Errorf (''No index was found that could be used for your query try db.''
                                 @ collection @ ''.getIndexes()''))
                      17357 of
                 (e, c5) \<Rightarrow> (Inr e, c5, server, cl))
          | Inr True \<Rightarrow>
         (case mutateQuery w p q remoteAddr (uuid_New w) of
            Inl pn \<Rightarrow> (Inl pn, c4, server, cl)
          | Inr q' \<Rightarrow>
              let newdoc = Marshal w q';
                  h' = h\<lparr>MessageLength :=
                          MessageLength h - of_nat (length queryDoc) + of_nat (length newdoc)\<rparr>
              in forwardQuery w p h' c4 server
                   [ToWire h', flags, fullCollectionName, twoInt32, newdoc]
                   q' queryID fullCollectionString cl)))
       else
         forwardQuery w p h c4 server
           [ToWire h, flags, fullCollectionName, twoInt32, queryDoc]
           q queryID fullCollectionString cl)))))"

subsection \<open>The connection pump\<close>

definition handleMessage ::
  "world \<Rightarrow> Proxy \<Rightarrow> messageHeader \<Rightarrow> conn \<Rightarrow> conn \<Rightarrow> ctl_event list
     \<Rightarrow> (panic + error option) \<times> conn \<times> conn \<times> ctl_event list" where
  "handleMessage w p h client0 server0 cl =
     (let server = server0\<lparr>events := events server0 @ [SetDeadline (messageTimeout p)]\<rparr>;
          client = client0\<lparr>events := events client0 @ [SetDeadline (messageTimeout p)]\<rparr>
      in if OpCode h = OpQuery then handleQueryRequest w p h client server cl
         else
           (case WriteTo h server of
              (Some err, server1) \<Rightarrow> (Inr (Some err), client, server1, cl)
            | (None, server1) \<Rightarrow>
                (case CopyN server1 client (sint (MessageLength h - of_nat headerLen)) of
                   (Some err, server2, client2) \<Rightarrow> (Inr (Some err), client2, server2, cl)
                 | (None, server2, client2) \<Rightarrow>
                     if HasResponse (OpCode h) then
                       (case copyMessage client2 server2 of
                          (Some err, client3, server3) \<Rightarrow> (Inr (Some err), client3, server3, cl)
                        | (None, client3, server3) \<Rightarrow> (Inr None, client3, server3, cl))
                     else (Inr None, client2, server2, cl))))"

definition clientReadHeader :: "Proxy \<Rightarrow> conn \<Rightarrow> (error + messageHeader) \<times> conn" where
  "clientReadHeader p c0 =
     (let c = c0\<lparr>events := events c0 @ [SetReadDeadline (clientIdleTimeout p)]\<rparr> in
      case readHeader c of
        (Inr header, c') \<Rightarrow> (Inr header, c')
      | (Inl err, c') \<Rightarrow>
          if err = EOF then (Inl errNormalClose, c')
          else if is_timeout err then (Inl errClientReadTimeout, c')
          else (Inl err, c'))"

text \<open>
  The state of one client connection inside the loop of \<^verbatim>\<open>handleClientConnection\<close>: the
  client, the upstream connection \<^verbatim>\<open>s\<close> (\<open>None\<close> is the nil left by a failed reconnect), the
  upstream connections already closed, the number of dials made, and the control-channel
  calls.
\<close>

record pump =
  client :: conn
  upstream :: "conn option"
  dropped :: "conn list"
  dials :: nat
  ctl :: "ctl_event list"

text \<open>What one pass of the loop body does next: go round again, which starts with the read
  of the next header, return from the function, or die in a panic.\<close>

datatype next_step = Continue pump | Return pump | Crashed panic pump

fun is_Dialed :: "dial_event \<Rightarrow> bool" where
  "is_Dialed (Dialed server) = True"
| "is_Dialed (Slept d) = False"

definition pump_iteration :: "world \<Rightarrow> Proxy \<Rightarrow> pump \<Rightarrow> next_step" where
  "pump_iteration w p st =
     (case clientReadHeader p (client st) of
        (Inl err, c) \<Rightarrow> Return (st\<lparr>client := c\<rparr>)
      | (Inr h, c) \<Rightarrow>
          (case upstream st of
             None \<Rightarrow> Crashed (Panic ''nil pointer dereference'') (st\<lparr>client := c\<rparr>)
           | Some s \<Rightarrow>
               (case handleMessage w p h c s (ctl st) of
                  (Inr None, c', s', cl) \<Rightarrow>
                    Continue (st\<lparr>client := c', upstream := Some s', ctl := cl\<rparr>)
                | (Inl pn, c', s', cl) \<Rightarrow>
                    Crashed pn (st\<lparr>client := c', upstream := Some s', ctl := cl\<rparr>)
                | (Inr (Some err), c', s', cl) \<Rightarrow>
                    (case newServerConn w p (dials st) of
                       (r, tr) \<Rightarrow>
                         let st' = st\<lparr>client := c',
                                       dropped := dropped st @ [s'\<lparr>events := events s' @ [Close]\<rparr>],
                                       dials := dials st + length (filter is_Dialed tr),
                                       ctl := cl\<rparr>
                         in case r of
                              Inl pn \<Rightarrow> Crashed pn (st'\<lparr>upstream := None\<rparr>)
                            | Inr (Inl e) \<Rightarrow> Continue (st'\<lparr>upstream := None\<rparr>)
                            | Inr (Inr s2) \<Rightarrow> Continue (st'\<lparr>upstream := Some s2\<rparr>)))))"


section \<open>Notions used to state the properties\<close>

subsection \<open>The admission rule as the specification words it\<close>

text \<open>
  The first indexable field and the admission rule in the specification's words: a query is
  wrapped when its first key is \<open>query\<close> or \<open>$query\<close>, a leading \<open>-\<close> is stripped, and names
  are compared without regard to the case of the ASCII letters.
\<close>

definition to_lower :: "char \<Rightarrow> char" where
  "to_lower c =
     (case map_of (zip ''ABCDEFGHIJKLMNOPQRSTUVWXYZ'' ''abcdefghijklmnopqrstuvwxyz'') c of
        Some l \<Rightarrow> l
      | None \<Rightarrow> c)"

definition ascii_case_insensitive_eq :: "string \<Rightarrow> string \<Rightarrow> bool" where
  "ascii_case_insensitive_eq s t = (map to_lower s = map to_lower t)"

definition claimed_firstIndexableField :: "doc \<Rightarrow> string" where
  "claimed_firstIndexableField query =
     (case query of
        [] \<Rightarrow> []
      | q0 # rest \<Rightarrow>
          if Name q0 = ''query'' \<or> Name q0 = ''$query'' then
            (case Value q0 of
               D (v0 # vs) \<Rightarrow> Name v0
             | _ \<Rightarrow>
                 (case map_of query ''orderby'' of
                    Some (D (t0 # ts)) \<Rightarrow> Name t0
                  | Some (String t) \<Rightarrow> TrimLeft t ''-''
                  | _ \<Rightarrow> Name q0))
          else Name q0)"

definition claimed_admission :: "int \<Rightarrow> Index list \<Rightarrow> doc \<Rightarrow> bool" where
  "claimed_admission count indexes query =
     (count = 0 \<or>
      list_ex (\<lambda>index. case Key index of
                          [] \<Rightarrow> False
                        | k0 # ks \<Rightarrow> ascii_case_insensitive_eq (TrimLeft k0 ''-'')
                                       (claimed_firstIndexableField query))
              indexes)"

text \<open>
  The first indexable field as the code computes it when it does not panic: a query counts as
  wrapped only when it has more than one entry and its first key, with every leading \<open>$\<close>
  stripped, is \<open>query\<close>; the \<open>orderby\<close> entry is the first whose key, without its leading
  \<open>$\<close>s, folds to \<open>orderby\<close>; \<open>-\<close> is stripped from both ends of an \<open>orderby\<close> string.
\<close>

definition amended_firstIndexableField :: "world \<Rightarrow> doc \<Rightarrow> string" where
  "amended_firstIndexableField w query =
     (case query of
        [] \<Rightarrow> []
      | q0 # rest \<Rightarrow>
          if rest \<noteq> [] \<and> TrimLeft (Name q0) ''$'' = ''query'' then
            (case Value q0 of
               D (v0 # vs) \<Rightarrow> Name v0
             | _ \<Rightarrow>
                 (case getKey w query ''orderby'' of
                    Some (D (t0 # ts)) \<Rightarrow> Name t0
                  | Some (String t) \<Rightarrow> Trim t ''-''
                  | _ \<Rightarrow> Name q0))
          else Name q0)"

subsection \<open>Messages and writers\<close>

text \<open>The bytes of the synthetic reply to the request \<open>h\<close>: header, prelude, error document.\<close>

definition errorReply :: "world \<Rightarrow> messageHeader \<Rightarrow> error \<Rightarrow> int \<Rightarrow> byte list" where
  "errorReply w h err code =
     ToWire \<lparr>MessageLength =
               of_nat (headerLen + length errorBytes + length (Marshal w (errorDoc_of err code))),
             RequestID = RequestID h, ResponseTo = RequestID h, OpCode = OpReply\<rparr>
       @ errorBytes @ Marshal w (errorDoc_of err code)"

text \<open>What a connection takes of the bytes offered to it, and whether it takes them all.\<close>

definition accepted :: "conn \<Rightarrow> byte list \<Rightarrow> byte list" where
  "accepted c bs = (case wr_room c of None \<Rightarrow> bs | Some r \<Rightarrow> take r bs)"

definition fits :: "conn \<Rightarrow> byte list \<Rightarrow> bool" where
  "fits c bs = (case wr_room c of None \<Rightarrow> True | Some r \<Rightarrow> length bs \<le> r)"

text \<open>The three errors the proxy reports to a client.\<close>

definition rejectionError :: "string \<Rightarrow> error" where
  "rejectionError collection =
     Errorf (''No index was found that could be used for your query try db.''
               @ collection @ ''.getIndexes()'')"

definition timeoutError :: "world \<Rightarrow> Proxy \<Rightarrow> error" where
  "timeoutError w p =
     Errorf (''Your query exceeded the time limit of '' @ Duration_String w (messageTimeout p)
               @ '' and has been killed'')"

definition killedError :: "error \<Rightarrow> error" where
  "killedError err = Errorf (''Error: '' @ Error err @ ''. Your query has been killed'')"

text \<open>The endpoint the dialer picks at its \<open>k\<close>-th dial.\<close>

definition chosen_server :: "world \<Rightarrow> string list \<Rightarrow> nat \<Rightarrow> string" where
  "chosen_server w srvs k =
     (if length srvs > 1 then srvs ! (rand_draw w k mod (length srvs - 1)) else srvs ! 0)"

subsection \<open>The pump over several messages\<close>

text \<open>
  The loop \<^verbatim>\<open>for { ... }\<close> of \<^verbatim>\<open>handleClientConnection\<close>, run for at most a given number of
  passes; the bytes written so far to the client and to the current upstream connection.
\<close>

fun pump_passes :: "nat \<Rightarrow> world \<Rightarrow> Proxy \<Rightarrow> pump \<Rightarrow> next_step" where
  "pump_passes 0 w p st = Continue st"
| "pump_passes (Suc n) w p st =
     (case pump_iteration w p st of
        Continue st' \<Rightarrow> pump_passes n w p st'
      | Return st' \<Rightarrow> Return st'
      | Crashed pn st' \<Rightarrow> Crashed pn st')"

fun pump_of :: "next_step \<Rightarrow> pump" where
  "pump_of (Continue st) = st"
| "pump_of (Return st) = st"
| "pump_of (Crashed pn st) = st"

definition client_bytes :: "pump \<Rightarrow> byte list" where
  "client_bytes st = written_bytes (events (client st))"

definition upstream_bytes :: "pump \<Rightarrow> byte list" where
  "upstream_bytes st = (case upstream st of Some s \<Rightarrow> written_bytes (events s) | None \<Rightarrow> [])"


section \<open>Scenario data\<close>

text \<open>
  The proxy of scenario S5: a message timeout of five seconds; the control channel reports
  three documents in every collection, one index, on \<open>email\<close>, and one operation in
  progress.
\<close>

definition S5_proxy :: Proxy where
  "S5_proxy =
     \<lparr>servers = [''db1:27017''],
      backChannel =
        \<lparr>Count = (\<lambda>db c. (3, None)),
         Indexes = (\<lambda>db c. ([\<lparr>Key = [''email'']\<rparr>], None)),
         FindInprog = (\<lambda>f. ([Int32 42], None)),
         KillOp = (\<lambda>opid. None)\<rparr>,
      clientIdleTimeout = 60 * Second,
      messageTimeout = 5 * Second\<rparr>"

definition S5_query :: doc where
  "S5_query = [(''$query'', D [(''email'', String ''x'')]), (''maxTimeMS'', Float64 (Finite 999999))]"

text \<open>A wrapped query whose \<open>maxTimeMS\<close> is a 32-bit integer, as most drivers send it.\<close>

definition int_maxTimeMS_query :: doc where
  "int_maxTimeMS_query = [(''$query'', D [(''email'', String ''x'')]), (''maxTimeMS'', Int32 5000)]"

text \<open>The proxy of S5 with a control channel on which listing the indexes fails, with one on
  which the lookup of the operations in progress fails, and with three endpoints.\<close>

definition lost_indexes_proxy :: Proxy where
  "lost_indexes_proxy =
     S5_proxy\<lparr>backChannel :=
       (backChannel S5_proxy)\<lparr>Indexes := (\<lambda>db c. ([], Some (NetError False ''connection reset'')))\<rparr>\<rparr>"

definition lost_inprog_proxy :: Proxy where
  "lost_inprog_proxy =
     S5_proxy\<lparr>backChannel :=
       (backChannel S5_proxy)\<lparr>FindInprog := (\<lambda>f. ([], Some (NetError False ''no reachable servers'')))\<rparr>\<rparr>"


text \<open>
  A world for the scenarios: a codec that knows the two query documents of S1 and S2,
  \<open>{email: "a@b"}\<close> and \<open>{name: "x"}\<close> in their BSON bytes, and writes every document as the
  empty one, the tracking id \<open>Q1\<close>, five seconds elapsed, and
  dials that are all refused. All names of the scenarios are ASCII, so the Unicode part of
  \<^verbatim>\<open>strings.EqualFold\<close> is never reached; this world has the equality of the rests for it.
\<close>

definition S1_doc :: "byte list" where
  "S1_doc = [20, 0, 0, 0, 2, 101, 109, 97, 105, 108, 0, 4, 0, 0, 0, 97, 64, 98, 0, 0]"

definition S2_doc :: "byte list" where
  "S2_doc = [17, 0, 0, 0, 2, 110, 97, 109, 101, 0, 2, 0, 0, 0, 120, 0, 0]"

definition S_world :: world where
  "S_world =
     \<lparr>Unmarshal = (\<lambda>b. if b = S1_doc then Inr [(''email'', String ''a@b'')]
                        else if b = S2_doc then Inr [(''name'', String ''x'')]
                        else Inl (Errorf ''Document is corrupted'')),
      Marshal = (\<lambda>d. [5, 0, 0, 0, 0]),
      uuid_New = ''Q1'',
      elapsed = 5 * Second,
      Floor_Seconds_minus_1 = (\<lambda>d. Finite (real_of_int (d div Second) - 1)),
      Duration_String = (\<lambda>d. ''5s''),
      rand_draw = (\<lambda>k. k),
      Dial = (\<lambda>k server. Inl (NetError False ''connection refused'')),
      EqualFold_hasUnicode = (\<lambda>s t. s = t)\<rparr>"

text \<open>The body of a Query message: flags, namespace, skip and return counts, query document.\<close>

definition query_body :: "string \<Rightarrow> byte list \<Rightarrow> byte list" where
  "query_body ns d = [0, 0, 0, 0] @ bytes_of ns @ [0] @ [0, 0, 0, 0, 0, 0, 0, 0] @ d"

text \<open>Scenario S2: a client whose next message is the query \<open>{name: "x"}\<close> on \<open>app.users\<close>,
  and an upstream server that is silent until the deadline.\<close>

definition S2_header :: messageHeader where
  "S2_header = \<lparr>MessageLength = 55, RequestID = 7, ResponseTo = 0, OpCode = OpQuery\<rparr>"

definition S2_client :: conn where
  "S2_client =
     \<lparr>RemoteAddr = Some ''10.0.0.7:5123'',
      rd = ToWire S2_header @ query_body ''app.users'' S2_doc, rd_err = EOF,
      wr_room = None, wr_err = NetError False ''broken pipe'', events = []\<rparr>"

definition idle_server :: conn where
  "idle_server =
     \<lparr>RemoteAddr = Some ''db1:27017'',
      rd = [], rd_err = NetError True ''i/o timeout'',
      wr_room = None, wr_err = NetError False ''broken pipe'', events = []\<rparr>"

definition S2_pump :: pump where
  "S2_pump = \<lparr>client = S2_client, upstream = Some idle_server, dropped = [], dials = 1, ctl = []\<rparr>"

definition S2_reading :: conn where
  "S2_reading = S2_client\<lparr>events := [SetReadDeadline (60 * Second), SetDeadline (5 * Second)],
                      rd := query_body ''app.users'' S2_doc\<rparr>"

text \<open>Scenario S6: the query \<open>{email: "a@b"}\<close> on \<open>app.users\<close> after its header is read, the
  document the mutator makes of it, and the parts written to the server.\<close>

definition S6_header :: messageHeader where
  "S6_header = \<lparr>MessageLength = 58, RequestID = 9, ResponseTo = 0, OpCode = OpQuery\<rparr>"

definition S6_client :: conn where
  "S6_client =
     \<lparr>RemoteAddr = Some ''10.0.0.7:5123'',
      rd = query_body ''app.users'' S1_doc, rd_err = EOF,
      wr_room = None, wr_err = NetError False ''broken pipe'',
      events = [SetReadDeadline (60 * Second), SetDeadline (5 * Second)]\<rparr>"

definition S6_server :: conn where
  "S6_server = idle_server\<lparr>events := [SetDeadline (5 * Second)]\<rparr>"

definition S6_mutated :: doc where
  "S6_mutated =
     [(''$query'', D [(''email'', String ''a@b'')]),
      (''$maxTimeMS'', Float64 (Finite 4000)),
      (''$queryGuard'', D [(''remoteaddr'', String ''10.0.0.7:5123''), (''track'', String ''Q1'')])]"

definition S6_parts :: "byte list list" where
  "S6_parts =
     [ToWire (S6_header\<lparr>MessageLength := 43\<rparr>), [0, 0, 0, 0], bytes_of ''app.users'' @ [0],
      [0, 0, 0, 0, 0, 0, 0, 0], [5, 0, 0, 0, 0]]"

text \<open>Scenario S2 with a field selector: the same query followed by the sixteen bytes of the
  document \<open>{email: 1}\<close> as \<^verbatim>\<open>returnFieldsSelector\<close>, in a message of 71 bytes.\<close>

definition S2_selector :: "byte list" where
  "S2_selector = [16, 0, 0, 0, 16, 101, 109, 97, 105, 108, 0, 1, 0, 0, 0, 0]"

definition S2_selector_header :: messageHeader where
  "S2_selector_header = \<lparr>MessageLength = 71, RequestID = 7, ResponseTo = 0, OpCode = OpQuery\<rparr>"

definition S2_selector_pump :: pump where
  "S2_selector_pump =
     \<lparr>client = S2_client\<lparr>rd := ToWire S2_selector_header @ query_body ''app.users'' S2_doc @ S2_selector\<rparr>,
      upstream = Some idle_server, dropped = [], dials = 1, ctl = []\<rparr>"

text \<open>The client of that scenario once the reply to the rejected query is written: the
  selector is still to be read.\<close>

definition S2_selector_replied :: conn where
  "S2_selector_replied =
     S2_reading\<lparr>rd := S2_selector,
                   events := [SetReadDeadline (60 * Second), SetDeadline (5 * Second),
                     Wrote (ToWire \<lparr>MessageLength = of_nat (headerLen + length errorBytes + length (Marshal S_world (errorDoc_of (rejectionError ''users'') 17357))),
                        RequestID = 7, ResponseTo = 7, OpCode = OpReply\<rparr>),
                     Wrote errorBytes, Wrote (Marshal S_world (errorDoc_of (rejectionError ''users'') 17357))]\<rparr>"


section \<open>Properties of the mutator and the inspector\<close>

text \<open>
  On names made of ASCII bytes \<^verbatim>\<open>strings.EqualFold\<close> never reaches its Unicode part, so its
  result is the same in every world. A name with a byte outside ASCII is handed to that
  part at the first such byte: the key \<open>maxTimeM\<close> followed by U+017F (bytes C5 BF) is compared
  with \<open>maxTimeMS\<close> by folding U+017F against \<open>S\<close>, and the key that starts with U+212A (bytes
  E2 84 AA) is compared with \<open>kind\<close> as a whole.
\<close>

lemma EqualFold_ascii:
  "\<forall>c\<in>set s. (of_char c :: nat) < 128 \<Longrightarrow> \<forall>c\<in>set t. (of_char c :: nat) < 128 \<Longrightarrow>
   EqualFold w s t = EqualFold w' s t"
  by (induction w s t rule: EqualFold.induct) auto

lemma EqualFold_refl_ascii: "\<forall>c\<in>set s. (of_char c :: nat) < 128 \<Longrightarrow> EqualFold w s s"
  by (induction s) auto

lemma EqualFold_long_s:
  "EqualFold w (''maxTimeM'' @ [char_of_byte 0xC5, char_of_byte 0xBF]) ''maxTimeMS''
     = EqualFold_hasUnicode w [char_of_byte 0xC5, char_of_byte 0xBF] ''S''"
  by (simp add: char_of_byte_def)

lemma EqualFold_kelvin:
  "EqualFold w ([char_of_byte 0xE2, char_of_byte 0x84, char_of_byte 0xAA] @ ''ind'') ''kind''
     = EqualFold_hasUnicode w ([char_of_byte 0xE2, char_of_byte 0x84, char_of_byte 0xAA] @ ''ind'') ''kind''"
  by (simp add: char_of_byte_def)

lemma keyIndex_from_range:
  "keyIndex_from w i d k = - 1 \<or> (int i \<le> keyIndex_from w i d k \<and> keyIndex_from w i d k < int i + int (length d))"
  by (induction d arbitrary: i) (auto, force+)

lemma keyIndex_from_hit:
  "keyIndex_from w i d k \<ge> 0 \<Longrightarrow>
     EqualFold w (TrimLeft (Name (d ! (nat (keyIndex_from w i d k) - i))) ''$'') k"
proof (induction d arbitrary: i)
  case Nil then show ?case by simp
next
  case (Cons v d)
  show ?case
  proof (cases "EqualFold w (TrimLeft (Name v) ''$'') k")
    case True then show ?thesis by simp
  next
    case False
    have r: "keyIndex_from w (Suc i) d k = - 1 \<or> int (Suc i) \<le> keyIndex_from w (Suc i) d k"
      using keyIndex_from_range[of w "Suc i" d k] by auto
    from Cons.prems False have ge: "keyIndex_from w (Suc i) d k \<ge> 0" by simp
    with r have le: "int (Suc i) \<le> keyIndex_from w (Suc i) d k" by auto
    then have "nat (keyIndex_from w (Suc i) d k) - i = Suc (nat (keyIndex_from w (Suc i) d k) - Suc i)"
      by linarith
    with Cons.IH[OF ge] False show ?thesis by simp
  qed
qed

lemma keyIndex_from_miss:
  "keyIndex_from w i d k \<ge> 0 \<Longrightarrow> j < nat (keyIndex_from w i d k) - i \<Longrightarrow>
     \<not> EqualFold w (TrimLeft (Name (d ! j)) ''$'') k"
proof (induction d arbitrary: i j)
  case Nil then show ?case by simp
next
  case (Cons v d)
  show ?case
  proof (cases "EqualFold w (TrimLeft (Name v) ''$'') k")
    case True with Cons.prems show ?thesis by simp
  next
    case False
    have r: "keyIndex_from w (Suc i) d k = - 1 \<or> int (Suc i) \<le> keyIndex_from w (Suc i) d k"
      using keyIndex_from_range[of w "Suc i" d k] by auto
    from Cons.prems False have ge: "keyIndex_from w (Suc i) d k \<ge> 0" by simp
    with r have le: "int (Suc i) \<le> keyIndex_from w (Suc i) d k" by auto
    show ?thesis
    proof (cases j)
      case 0 with False show ?thesis by simp
    next
      case (Suc j')
      with Cons.prems False le have "j' < nat (keyIndex_from w (Suc i) d k) - Suc i" by simp
      from Cons.IH[OF ge this] Suc show ?thesis by simp
    qed
  qed
qed

lemma keyIndex_from_none:
  "keyIndex_from w i d k < 0 \<longleftrightarrow> (\<forall>e \<in> set d. \<not> EqualFold w (TrimLeft (Name e) ''$'') k)"
proof (induction d arbitrary: i)
  case Nil then show ?case by simp
next
  case (Cons v d) then show ?case by auto
qed

lemma keyIndex_bounds: "keyIndex w d k \<ge> 0 \<Longrightarrow> nat (keyIndex w d k) < length d"
  using keyIndex_from_range[of w 0 d k] by (auto simp: keyIndex_def)

lemma keyIndex_hit: "keyIndex w d k \<ge> 0 \<Longrightarrow> EqualFold w (TrimLeft (Name (d ! nat (keyIndex w d k))) ''$'') k"
  using keyIndex_from_hit[of w 0 d k] by (simp add: keyIndex_def)

lemma keyIndex_first: "keyIndex w d k \<ge> 0 \<Longrightarrow> j < nat (keyIndex w d k) \<Longrightarrow>
   \<not> EqualFold w (TrimLeft (Name (d ! j)) ''$'') k"
  using keyIndex_from_miss[of w 0 d k j] by (simp add: keyIndex_def)

lemma keyIndex_none: "keyIndex w d k < 0 \<longleftrightarrow> (\<forall>e \<in> set d. \<not> EqualFold w (TrimLeft (Name e) ''$'') k)"
  using keyIndex_from_none[of w 0 d k] by (simp add: keyIndex_def)

lemma first_entry_not_own_wrapper: "q \<noteq> [] \<Longrightarrow> q ! 0 \<noteq> (n, D q)"
proof
  assume ne: "q \<noteq> []" and eq: "q ! 0 = (n, D q)"
  then obtain e es where q: "q = e # es" by (cases q) auto
  with eq have "e = (n, D (e # es))" by simp
  then have "snd e = D (e # es)" by (metis snd_conv)
  moreover have "size (snd e) < size (D (e # es))" by (cases e) simp
  ultimately show False by simp
qed

lemma query_not_maxTimeMS: "\<not> EqualFold w ''query'' ''maxTimeMS''"
  by simp

lemma TrimLeft_dollar_query: "TrimLeft ''$query'' ''$'' = ''query''"
  by (simp add: TrimLeft_def)

lemma keyIndex_wrapper: "keyIndex w [(''$query'', v)] ''maxTimeMS'' = - 1"
  by (simp add: keyIndex_def TrimLeft_dollar_query query_not_maxTimeMS)

lemma keyIndex_wrapped_pos:
  assumes "TrimLeft (Name (q ! 0)) ''$'' = ''query''" "keyIndex w q ''maxTimeMS'' \<ge> 0"
  shows "nat (keyIndex w q ''maxTimeMS'') \<noteq> 0"
proof
  assume "nat (keyIndex w q ''maxTimeMS'') = 0"
  with keyIndex_hit[OF assms(2)] assms(1) show False by (simp add: query_not_maxTimeMS)
qed

lemma mutateQuery_bare:
  "\<not> (length q > 1 \<and> TrimLeft (Name (q ! 0)) ''$'' = ''query'') \<Longrightarrow>
   mutateQuery w p q a i =
     Inr [(''$query'', D q), (''$maxTimeMS'', Float64 (maxTimeMS_of p)), queryGuard a i]"
  by (simp add: mutateQuery_def Let_def keyIndex_wrapper del: One_nat_def)

lemma mutateQuery_wrapped_absent:
  "length q > 1 \<Longrightarrow> TrimLeft (Name (q ! 0)) ''$'' = ''query'' \<Longrightarrow> keyIndex w q ''maxTimeMS'' < 0 \<Longrightarrow>
   mutateQuery w p q a i = Inr (q @ [(''$maxTimeMS'', Float64 (maxTimeMS_of p)), queryGuard a i])"
  by (simp add: mutateQuery_def Let_def del: One_nat_def)

lemma mutateQuery_wrapped_present:
  "length q > 1 \<Longrightarrow> TrimLeft (Name (q ! 0)) ''$'' = ''query'' \<Longrightarrow> keyIndex w q ''maxTimeMS'' \<ge> 0 \<Longrightarrow>
   Value (q ! nat (keyIndex w q ''maxTimeMS'')) = Float64 v \<Longrightarrow>
   mutateQuery w p q a i =
     Inr (q[nat (keyIndex w q ''maxTimeMS'') :=
              (Name (q ! nat (keyIndex w q ''maxTimeMS'')),
               Float64 (if float64_gt v (maxTimeMS_of p) then maxTimeMS_of p else v))]
          @ [queryGuard a i])"
  by (simp add: mutateQuery_def Let_def del: One_nat_def) (metis list_update_id prod.collapse)

lemma mutateQuery_wrapped_panic:
  "length q > 1 \<Longrightarrow> TrimLeft (Name (q ! 0)) ''$'' = ''query'' \<Longrightarrow> keyIndex w q ''maxTimeMS'' \<ge> 0 \<Longrightarrow>
   (\<forall>v. Value (q ! nat (keyIndex w q ''maxTimeMS'')) \<noteq> Float64 v) \<Longrightarrow>
   mutateQuery w p q a i = Inl (Panic ''interface conversion: interface {} is not float64'')"
  by (simp add: mutateQuery_def Let_def del: One_nat_def split: bson.splits)

lemma keyIndex_from_names:
  "map fst d = map fst d' \<Longrightarrow> keyIndex_from w n d k = keyIndex_from w n d' k"
proof (induction d arbitrary: d' n)
  case Nil then show ?case by simp
next
  case (Cons e d)
  then obtain e' d2 where d': "d' = e' # d2" by (cases d') auto
  with Cons.prems have "fst e = fst e'" "map fst d = map fst d2" by auto
  with Cons.IH[of d2 "Suc n"] d' show ?case by simp
qed

lemma keyIndex_from_append_hit:
  "keyIndex_from w n d k \<ge> 0 \<Longrightarrow> keyIndex_from w n (d @ e) k = keyIndex_from w n d k"
  by (induction d arbitrary: n) auto

lemma keyIndex_from_append_miss:
  "keyIndex_from w n d k < 0 \<Longrightarrow> keyIndex_from w n (d @ e) k = keyIndex_from w (n + length d) e k"
  by (induction d arbitrary: n) (auto split: if_splits)

lemma keyIndex_update:
  "keyIndex w (d[j := (Name (d ! j), x)]) k = keyIndex w d k"
  unfolding keyIndex_def
proof (rule keyIndex_from_names)
  show "map fst (d[j := (Name (d ! j), x)]) = map fst d"
    by (cases "j < length d") (simp_all add: map_update list_update_same_conv list_update_beyond)
qed

lemma keyIndex_append_hit: "keyIndex w d k \<ge> 0 \<Longrightarrow> keyIndex w (d @ e) k = keyIndex w d k"
  unfolding keyIndex_def by (rule keyIndex_from_append_hit)

lemma hit_maxTimeMS: "EqualFold w (TrimLeft ''$maxTimeMS'' ''$'') ''maxTimeMS''"
  by (simp add: TrimLeft_def)

lemma keyIndex_append_maxTimeMS:
  "keyIndex w d ''maxTimeMS'' < 0 \<Longrightarrow> keyIndex w (d @ (''$maxTimeMS'', x) # e) ''maxTimeMS'' = int (length d)"
  unfolding keyIndex_def
  by (simp add: keyIndex_from_append_miss hit_maxTimeMS)

lemma float64_gt_irrefl: "\<not> float64_gt x x"
  by (cases x) auto

text \<open>
  Claim C7, amended. When the mutator returns, the first entry of its result is
  \<open>{$query: <original>}\<close> if and only if the original is not a document of more than one
  entry whose first key, with every leading \<open>$\<close> stripped, is \<open>query\<close>; such a document keeps
  its own first entry and gets no further wrapping.
\<close>

theorem mutateQuery_wrap_iff:
  assumes "mutateQuery w p q a i = Inr r"
  shows "((r ! 0 = (''$query'', D q)) \<longleftrightarrow>
            \<not> (length q > 1 \<and> TrimLeft (Name (q ! 0)) ''$'' = ''query''))
         \<and> (length q > 1 \<and> TrimLeft (Name (q ! 0)) ''$'' = ''query'' \<longrightarrow> r ! 0 = q ! 0)"
proof (cases "length q > 1 \<and> TrimLeft (Name (q ! 0)) ''$'' = ''query''")
  case False
  from mutateQuery_bare[OF False, of w p a i] assms False show ?thesis by auto
next
  case True
  then have len: "length q > 1" and nm: "TrimLeft (Name (q ! 0)) ''$'' = ''query''" by auto
  from len have ne: "q \<noteq> []" by auto
  have first: "r ! 0 = q ! 0"
  proof (cases "keyIndex w q ''maxTimeMS'' \<ge> 0")
    case False
    then have "keyIndex w q ''maxTimeMS'' < 0" by simp
    from mutateQuery_wrapped_absent[OF len nm this, of p a i] assms ne
    show ?thesis by (auto simp: nth_append)
  next
    case hit: True
    have "\<exists>v. Value (q ! nat (keyIndex w q ''maxTimeMS'')) = Float64 v"
      using mutateQuery_wrapped_panic[OF len nm hit, of p a i] assms by auto
    then obtain v where v: "Value (q ! nat (keyIndex w q ''maxTimeMS'')) = Float64 v" ..
    from keyIndex_wrapped_pos[OF nm hit] have "nat (keyIndex w q ''maxTimeMS'') \<noteq> 0" .
    with mutateQuery_wrapped_present[OF len nm hit v, of p a i] assms ne
    show ?thesis by (auto simp: nth_append)
  qed
  with first_entry_not_own_wrapper[OF ne, of "''$query''"] True show ?thesis by simp
qed

text \<open>Without overflow the cap is the message timeout minus one second, in whole
  milliseconds.\<close>

lemma maxTimeMS_of_exact:
  "- (2 ^ 63) \<le> messageTimeout p - Second \<Longrightarrow> messageTimeout p - Second < 2 ^ 63 \<Longrightarrow>
   maxTimeMS_of p = Finite (real_of_int ((messageTimeout p - Second) sdiv Millisecond))"
  by (simp add: maxTimeMS_of_def wrap64_def)

lemma S5_cap: "maxTimeMS_of S5_proxy = Finite 4000"
  by (simp add: maxTimeMS_of_def S5_proxy_def Second_def Millisecond_def wrap64_def signed_divide_int_def)

lemma S5_mutate:
  "mutateQuery S_world S5_proxy S5_query ''10.0.0.7:5123'' ''Q1'' =
     Inr [(''$query'', D [(''email'', String ''x'')]), (''maxTimeMS'', Float64 (Finite 4000)),
          (''$queryGuard'', D [(''remoteaddr'', String ''10.0.0.7:5123''), (''track'', String ''Q1'')])]"
  by (simp add: mutateQuery_def S5_cap S5_query_def keyIndex_def TrimLeft_def queryGuard_def Let_def)

text \<open>The query of scenario S5 is already wrapped and keeps its first entry.\<close>

theorem mutateQuery_wrap_iff_witness:
  "[(''$query'', D [(''email'', String ''x'')]), (''maxTimeMS'', Float64 (Finite 4000)),
          (''$queryGuard'', D [(''remoteaddr'', String ''10.0.0.7:5123''), (''track'', String ''Q1'')])] ! 0
     = S5_query ! 0
   \<and> length S5_query > 1 \<and> TrimLeft (Name (S5_query ! 0)) ''$'' = ''query''"
proof -
  have w: "length S5_query > 1 \<and> TrimLeft (Name (S5_query ! 0)) ''$'' = ''query''"
    by (simp add: S5_query_def TrimLeft_def)
  with mutateQuery_wrap_iff[OF S5_mutate] show ?thesis by blast
qed

text \<open>
  Claim C7 as stated fails on a document whose only entry is \<open>$query\<close>: its first key
  stripped is \<open>query\<close>, and the mutator wraps it a second time.
\<close>

theorem mutateQuery_wrap_counterexample:
  "TrimLeft (Name ([(''$query'', D [(''email'', String ''x'')])] ! 0)) ''$'' = ''query''
   \<and> mutateQuery S_world S5_proxy [(''$query'', D [(''email'', String ''x'')])] ''10.0.0.7:5123'' ''Q1'' =
       Inr [(''$query'', D [(''$query'', D [(''email'', String ''x'')])]),
            (''$maxTimeMS'', Float64 (Finite 4000)),
            (''$queryGuard'', D [(''remoteaddr'', String ''10.0.0.7:5123''), (''track'', String ''Q1'')])]"
  by (simp add: mutateQuery_def S5_cap keyIndex_def TrimLeft_def queryGuard_def Let_def)

lemma guard_count_update:
  "length (filter (\<lambda>e. Name e = n) (d[j := (Name (d ! j), x)])) = length (filter (\<lambda>e. Name e = n) d)"
proof -
  have "map fst (d[j := (Name (d ! j), x)]) = map fst d"
    by (cases "j < length d") (simp_all add: map_update list_update_same_conv list_update_beyond)
  then have "filter (\<lambda>m. m = n) (map fst (d[j := (Name (d ! j), x)])) = filter (\<lambda>m. m = n) (map fst d)"
    by simp
  then have "length (filter ((\<lambda>m. m = n) \<circ> fst) (d[j := (Name (d ! j), x)])) = length (filter ((\<lambda>m. m = n) \<circ> fst) d)"
    unfolding filter_map by (metis length_map)
  then show ?thesis by (simp add: comp_def)
qed

lemma no_guard_filter: "(\<forall>e\<in>set d. Name e \<noteq> n) \<Longrightarrow> filter (\<lambda>e. Name e = n) d = []"
  by (induction d) auto

text \<open>
  Claim C4, amended. An entry matches \<open>maxTimeMS\<close> when its key, with every leading \<open>$\<close>
  stripped, is equal to \<open>maxTimeMS\<close> under \<^verbatim>\<open>strings.EqualFold\<close> (\<open>keyIndex\<close> gives the first
  such entry). Every document the mutator returns is in wrapped form (more than one entry,
  first key \<open>query\<close> after the leading \<open>$\<close>s); its last entry is \<open>$queryGuard\<close> with exactly the
  sub-keys \<open>remoteaddr\<close> and \<open>track\<close> in that order, and it is the only \<open>$queryGuard\<close> entry
  when the incoming document has none at top level; the first entry that matches \<open>maxTimeMS\<close>
  holds a float that is not greater than the cap; a matching entry already present in a
  wrapped query keeps its key and position and holds the smaller of its value and the cap
  (a NaN stays), otherwise \<open>$maxTimeMS\<close> is appended with exactly the cap.
\<close>

theorem mutateQuery_shape:
  assumes ok: "mutateQuery w p q a i = Inr r"
  shows "length r > 1 \<and> TrimLeft (Name (r ! 0)) ''$'' = ''query''
       \<and> last r = (''$queryGuard'', D [(''remoteaddr'', String a), (''track'', String i)])
       \<and> ((\<forall>e\<in>set q. Name e \<noteq> ''$queryGuard'') \<longrightarrow>
            length (filter (\<lambda>e. Name e = ''$queryGuard'') r) = 1)
       \<and> keyIndex w r ''maxTimeMS'' \<ge> 0
       \<and> (\<exists>v. Value (r ! nat (keyIndex w r ''maxTimeMS'')) = Float64 v \<and> \<not> float64_gt v (maxTimeMS_of p))
       \<and> (if length q > 1 \<and> TrimLeft (Name (q ! 0)) ''$'' = ''query''
          then if keyIndex w q ''maxTimeMS'' \<ge> 0
               then \<exists>v. Value (q ! nat (keyIndex w q ''maxTimeMS'')) = Float64 v
                      \<and> r = q[nat (keyIndex w q ''maxTimeMS'') :=
                               (Name (q ! nat (keyIndex w q ''maxTimeMS'')),
                                Float64 (if float64_gt v (maxTimeMS_of p) then maxTimeMS_of p else v))]
                            @ [queryGuard a i]
               else r = q @ [(''$maxTimeMS'', Float64 (maxTimeMS_of p)), queryGuard a i]
          else r = [(''$query'', D q), (''$maxTimeMS'', Float64 (maxTimeMS_of p)), queryGuard a i])"
proof -
  let ?cap = "maxTimeMS_of p"
  let ?G = "(''$queryGuard'', D [(''remoteaddr'', String a), (''track'', String i)])"
  let ?W = "length q > 1 \<and> TrimLeft (Name (q ! 0)) ''$'' = ''query''"
  let ?last = "if ?W
          then if keyIndex w q ''maxTimeMS'' \<ge> 0
               then \<exists>v. Value (q ! nat (keyIndex w q ''maxTimeMS'')) = Float64 v
                      \<and> r = q[nat (keyIndex w q ''maxTimeMS'') :=
                               (Name (q ! nat (keyIndex w q ''maxTimeMS'')),
                                Float64 (if float64_gt v ?cap then ?cap else v))]
                            @ [queryGuard a i]
               else r = q @ [(''$maxTimeMS'', Float64 ?cap), queryGuard a i]
          else r = [(''$query'', D q), (''$maxTimeMS'', Float64 ?cap), queryGuard a i]"
  have "length r > 1 \<and> TrimLeft (Name (r ! 0)) ''$'' = ''query'' \<and> last r = ?G
       \<and> ((\<forall>e\<in>set q. Name e \<noteq> ''$queryGuard'') \<longrightarrow>
            length (filter (\<lambda>e. Name e = ''$queryGuard'') r) = 1)
       \<and> keyIndex w r ''maxTimeMS'' \<ge> 0
       \<and> (\<exists>v. Value (r ! nat (keyIndex w r ''maxTimeMS'')) = Float64 v \<and> \<not> float64_gt v ?cap)
       \<and> ?last"
  proof (cases ?W)
    case False
    from mutateQuery_bare[OF False, of w p a i] ok
    have r: "r = [(''$query'', D q), (''$maxTimeMS'', Float64 ?cap), queryGuard a i]" by simp
    have k: "keyIndex w r ''maxTimeMS'' = 1"
      by (simp add: r keyIndex_def TrimLeft_dollar_query query_not_maxTimeMS hit_maxTimeMS)
    have c1: "length r > 1" by (simp add: r)
    have c2: "TrimLeft (Name (r ! 0)) ''$'' = ''query''" by (simp add: r TrimLeft_dollar_query)
    have c3: "last r = ?G" by (simp add: r queryGuard_def)
    have c4: "(\<forall>e\<in>set q. Name e \<noteq> ''$queryGuard'') \<longrightarrow>
            length (filter (\<lambda>e. Name e = ''$queryGuard'') r) = 1"
      by (simp add: r queryGuard_def)
    have c5: "keyIndex w r ''maxTimeMS'' \<ge> 0" by (simp add: k)
    have c6: "\<exists>v. Value (r ! nat (keyIndex w r ''maxTimeMS'')) = Float64 v \<and> \<not> float64_gt v ?cap"
      unfolding k by (simp add: r float64_gt_irrefl)
    have c7: ?last using False r by (simp only: if_False)
    from c1 c2 c3 c4 c5 c6 c7 show ?thesis by blast
  next
    case True
    then have len: "length q > 1" and nm: "TrimLeft (Name (q ! 0)) ''$'' = ''query''" by auto
    from len have ne: "q \<noteq> []" by auto
    show ?thesis
    proof (cases "keyIndex w q ''maxTimeMS'' \<ge> 0")
      case False
      then have miss: "keyIndex w q ''maxTimeMS'' < 0" by simp
      from mutateQuery_wrapped_absent[OF len nm miss, of p a i] ok
      have r: "r = q @ [(''$maxTimeMS'', Float64 ?cap), queryGuard a i]" by simp
      have k: "keyIndex w r ''maxTimeMS'' = int (length q)"
        unfolding r by (rule keyIndex_append_maxTimeMS[OF miss])
      have c1: "length r > 1" using len by (simp add: r)
      have c2: "TrimLeft (Name (r ! 0)) ''$'' = ''query''" using ne nm by (simp add: r nth_append)
      have c3: "last r = ?G" by (simp add: r queryGuard_def)
      have c4: "(\<forall>e\<in>set q. Name e \<noteq> ''$queryGuard'') \<longrightarrow>
            length (filter (\<lambda>e. Name e = ''$queryGuard'') r) = 1"
        by (auto simp: r no_guard_filter queryGuard_def)
      have c5: "keyIndex w r ''maxTimeMS'' \<ge> 0" by (simp add: k)
      have c6: "\<exists>v. Value (r ! nat (keyIndex w r ''maxTimeMS'')) = Float64 v \<and> \<not> float64_gt v ?cap"
        unfolding k by (simp add: r nth_append float64_gt_irrefl)
      have c7: ?last using len nm False r by (simp del: One_nat_def)
      from c1 c2 c3 c4 c5 c6 c7 show ?thesis by blast
    next
      case hit: True
      let ?k = "nat (keyIndex w q ''maxTimeMS'')"
      have "\<exists>v. Value (q ! ?k) = Float64 v"
        using mutateQuery_wrapped_panic[OF len nm hit, of p a i] ok by auto
      then obtain v where v: "Value (q ! ?k) = Float64 v" ..
      let ?v' = "if float64_gt v ?cap then ?cap else v"
      from mutateQuery_wrapped_present[OF len nm hit v, of p a i] ok
      have r: "r = q[?k := (Name (q ! ?k), Float64 ?v')] @ [queryGuard a i]" by simp
      have kb: "?k < length q" by (rule keyIndex_bounds[OF hit])
      have kpos: "?k \<noteq> 0" by (rule keyIndex_wrapped_pos[OF nm hit])
      have k: "keyIndex w r ''maxTimeMS'' = keyIndex w q ''maxTimeMS''"
        unfolding r using hit by (simp add: keyIndex_append_hit keyIndex_update)
      have rk: "r ! ?k = (Name (q ! ?k), Float64 ?v')" using kb by (simp add: r nth_append)
      have c1: "length r > 1" using ne by (simp add: r)
      have c2: "TrimLeft (Name (r ! 0)) ''$'' = ''query''" using ne nm kpos by (simp add: r nth_append)
      have c3: "last r = ?G" by (simp add: r queryGuard_def)
      have c4: "(\<forall>e\<in>set q. Name e \<noteq> ''$queryGuard'') \<longrightarrow>
            length (filter (\<lambda>e. Name e = ''$queryGuard'') r) = 1"
        unfolding r by (simp add: guard_count_update no_guard_filter queryGuard_def)
      have c5: "keyIndex w r ''maxTimeMS'' \<ge> 0" using hit by (simp add: k)
      have le: "\<not> float64_gt ?v' ?cap" by (simp add: float64_gt_irrefl)
      have c6: "\<exists>v. Value (r ! nat (keyIndex w r ''maxTimeMS'')) = Float64 v \<and> \<not> float64_gt v ?cap"
        unfolding k rk using le by simp
      have "\<exists>v. Value (q ! ?k) = Float64 v \<and> r = q[?k := (Name (q ! ?k), Float64 (if float64_gt v ?cap then ?cap else v))] @ [queryGuard a i]"
        using v r by blast
      then have c7: ?last using len nm hit by (simp del: One_nat_def)
      from c1 c2 c3 c4 c5 c6 c7 show ?thesis by blast
    qed
  qed
  then show ?thesis .
qed

text \<open>Scenario S5: \<open>maxTimeMS: 999999.0\<close> is clamped in place to \<open>4000.0\<close>.\<close>

theorem mutateQuery_shape_witness:
  "mutateQuery S_world S5_proxy S5_query ''10.0.0.7:5123'' ''Q1'' =
     Inr [(''$query'', D [(''email'', String ''x'')]), (''maxTimeMS'', Float64 (Finite 4000)),
          (''$queryGuard'', D [(''remoteaddr'', String ''10.0.0.7:5123''), (''track'', String ''Q1'')])]
   \<and> keyIndex S_world [(''$query'', D [(''email'', String ''x'')]), (''maxTimeMS'', Float64 (Finite 4000)),
          (''$queryGuard'', D [(''remoteaddr'', String ''10.0.0.7:5123''), (''track'', String ''Q1'')])]
        ''maxTimeMS'' \<ge> 0"
  using mutateQuery_shape[OF S5_mutate] S5_mutate by simp

text \<open>
  Claim C4 as stated fails on a wrapped query that already carries a \<open>$queryGuard\<close> entry:
  the result has two.
\<close>

theorem mutateQuery_shape_counterexample:
  "mutateQuery S_world S5_proxy
       [(''$query'', D [(''email'', String ''x'')]), (''$queryGuard'', String ''mine'')]
       ''10.0.0.7:5123'' ''Q1'' =
     Inr [(''$query'', D [(''email'', String ''x'')]),
          (''$queryGuard'', String ''mine''),
          (''$maxTimeMS'', Float64 (Finite 4000)),
          (''$queryGuard'', D [(''remoteaddr'', String ''10.0.0.7:5123''), (''track'', String ''Q1'')])]"
  by (simp add: mutateQuery_def S5_cap keyIndex_def TrimLeft_def queryGuard_def Let_def)

text \<open>
  When the Unicode part folds U+017F to \<open>S\<close>, as the tables of package \<^verbatim>\<open>unicode\<close> do, the
  entry with that key is the \<open>maxTimeMS\<close> entry of a wrapped query: a float is clamped in
  place and no \<open>$maxTimeMS\<close> is appended, and a 32-bit integer makes the type assertion
  panic.
\<close>

lemma long_s_clamped_in_place:
  assumes "EqualFold_hasUnicode w [char_of_byte 0xC5, char_of_byte 0xBF] ''S''"
  shows "mutateQuery w S5_proxy
           [(''$query'', D [(''email'', String ''x'')]),
            (''maxTimeM'' @ [char_of_byte 0xC5, char_of_byte 0xBF], Float64 (Finite 999999))] a i =
         Inr [(''$query'', D [(''email'', String ''x'')]),
              (''maxTimeM'' @ [char_of_byte 0xC5, char_of_byte 0xBF], Float64 (Finite 4000)),
              queryGuard a i]"
  using assms by (simp add: mutateQuery_def S5_cap keyIndex_def TrimLeft_def Let_def char_of_byte_def)

lemma long_s_int_panics:
  assumes "EqualFold_hasUnicode w [char_of_byte 0xC5, char_of_byte 0xBF] ''S''"
  shows "mutateQuery w p
           [(''$query'', D [(''email'', String ''x'')]),
            (''maxTimeM'' @ [char_of_byte 0xC5, char_of_byte 0xBF], Int32 5000)] a i =
         Inl (Panic ''interface conversion: interface {} is not float64'')"
  using assms by (simp add: mutateQuery_def keyIndex_def TrimLeft_def Let_def char_of_byte_def)

lemma int_maxTimeMS_panics:
  "mutateQuery w p int_maxTimeMS_query a i = Inl (Panic ''interface conversion: interface {} is not float64'')"
  by (simp add: mutateQuery_def int_maxTimeMS_query_def keyIndex_def TrimLeft_def Let_def)

lemma int_maxTimeMS_admitted:
  "checkForIndex w S5_proxy ''app'' ''users'' int_maxTimeMS_query = Inr True"
  by (simp add: checkForIndex_def S5_proxy_def int_maxTimeMS_query_def firstIndexableField_def
      TrimLeft_def Trim_def TrimRight_def)

lemma int_maxTimeMS_getKey: "getKey w int_maxTimeMS_query ''maxTimeMS'' = Some (Int32 5000)"
  by (simp add: getKey_def int_maxTimeMS_query_def keyIndex_def TrimLeft_def Let_def)

text \<open>
  Claim C9. If every top-level entry of the query whose key, with every leading \<open>$\<close>
  stripped, is equal to \<open>maxTimeMS\<close> under \<^verbatim>\<open>strings.EqualFold\<close> holds a float, the mutator
  returns a document; and there is an admitted query with a 32-bit integer \<open>maxTimeMS\<close> on
  which the type assertion of the clamp panics.
\<close>

theorem mutateQuery_total_iff_float:
  "(\<forall>p q a i.
      (\<forall>e\<in>set q. EqualFold w (TrimLeft (Name e) ''$'') ''maxTimeMS'' \<longrightarrow> (\<exists>v. Value e = Float64 v))
      \<longrightarrow> (\<exists>r. mutateQuery w p q a i = Inr r))
   \<and> (\<exists>p db c q n.
        getKey w q ''maxTimeMS'' = Some (Int32 n)
        \<and> checkForIndex w p db c q = Inr True
        \<and> (\<forall>a i. \<exists>msg. mutateQuery w p q a i = Inl (Panic msg)))"
proof (intro conjI allI impI)
  fix p :: Proxy and q :: doc and a i :: string
  assume fl: "\<forall>e\<in>set q. EqualFold w (TrimLeft (Name e) ''$'') ''maxTimeMS'' \<longrightarrow> (\<exists>v. Value e = Float64 v)"
  show "\<exists>r. mutateQuery w p q a i = Inr r"
  proof (cases "length q > 1 \<and> TrimLeft (Name (q ! 0)) ''$'' = ''query''")
    case False
    from mutateQuery_bare[OF False] show ?thesis by blast
  next
    case True
    then have len: "length q > 1" and nm: "TrimLeft (Name (q ! 0)) ''$'' = ''query''" by auto
    show ?thesis
    proof (cases "keyIndex w q ''maxTimeMS'' \<ge> 0")
      case False
      then have "keyIndex w q ''maxTimeMS'' < 0" by simp
      from mutateQuery_wrapped_absent[OF len nm this] show ?thesis by blast
    next
      case hit: True
      have "q ! nat (keyIndex w q ''maxTimeMS'') \<in> set q"
        using keyIndex_bounds[OF hit] by simp
      with fl keyIndex_hit[OF hit]
      obtain v where "Value (q ! nat (keyIndex w q ''maxTimeMS'')) = Float64 v" by blast
      from mutateQuery_wrapped_present[OF len nm hit this] show ?thesis by blast
    qed
  qed
next
  show "\<exists>p db c q n.
        getKey w q ''maxTimeMS'' = Some (Int32 n)
        \<and> checkForIndex w p db c q = Inr True
        \<and> (\<forall>a i. \<exists>msg. mutateQuery w p q a i = Inl (Panic msg))"
    using int_maxTimeMS_getKey int_maxTimeMS_admitted int_maxTimeMS_panics by blast
qed

text \<open>The query of scenario S5 satisfies the precondition and is mutated.\<close>

theorem mutateQuery_total_iff_float_witness:
  "\<exists>r. mutateQuery S_world S5_proxy S5_query ''10.0.0.7:5123'' ''Q1'' = Inr r"
proof -
  have h: "\<forall>e\<in>set S5_query. EqualFold S_world (TrimLeft (Name e) ''$'') ''maxTimeMS'' \<longrightarrow> (\<exists>v. Value e = Float64 v)"
    by (simp add: S5_query_def TrimLeft_def)
  from mutateQuery_total_iff_float h show ?thesis by blast
qed

lemma firstIndexableField_bare:
  "\<not> (TrimLeft (Name q0) ''$'' = ''query'' \<and> rest \<noteq> []) \<Longrightarrow>
   firstIndexableField w (q0 # rest) = Inr (Name q0)"
  by (cases rest) (auto simp: firstIndexableField_def)

lemma firstIndexableField_inner:
  "TrimLeft (Name q0) ''$'' = ''query'' \<Longrightarrow> rest \<noteq> [] \<Longrightarrow> Value q0 = D (v0 # vs) \<Longrightarrow>
   firstIndexableField w (q0 # rest) = Inr (Name v0)"
  by (cases rest) (auto simp: firstIndexableField_def)

lemma firstIndexableField_orderby:
  "TrimLeft (Name q0) ''$'' = ''query'' \<Longrightarrow> rest \<noteq> [] \<Longrightarrow> (\<forall>v0 vs. Value q0 \<noteq> D (v0 # vs)) \<Longrightarrow>
   firstIndexableField w (q0 # rest) =
     (case getKey w (q0 # rest) ''orderby'' of
        Some (D t) \<Rightarrow>
          (case t of [] \<Rightarrow> Inl (Panic ''index out of range'') | t0 # ts \<Rightarrow> Inr (Name t0))
      | Some (String t) \<Rightarrow> Inr (Trim t ''-'')
      | _ \<Rightarrow> Inr (Name q0))"
  by (cases rest; cases "Value q0") (auto simp: firstIndexableField_def split: list.splits)

lemma amended_bare:
  "\<not> (TrimLeft (Name q0) ''$'' = ''query'' \<and> rest \<noteq> []) \<Longrightarrow>
   amended_firstIndexableField w (q0 # rest) = Name q0"
  by (auto simp: amended_firstIndexableField_def)

lemma amended_inner:
  "TrimLeft (Name q0) ''$'' = ''query'' \<Longrightarrow> rest \<noteq> [] \<Longrightarrow> Value q0 = D (v0 # vs) \<Longrightarrow>
   amended_firstIndexableField w (q0 # rest) = Name v0"
  by (auto simp: amended_firstIndexableField_def)

lemma amended_orderby:
  "TrimLeft (Name q0) ''$'' = ''query'' \<Longrightarrow> rest \<noteq> [] \<Longrightarrow> (\<forall>v0 vs. Value q0 \<noteq> D (v0 # vs)) \<Longrightarrow>
   amended_firstIndexableField w (q0 # rest) =
     (case getKey w (q0 # rest) ''orderby'' of
        Some (D (t0 # ts)) \<Rightarrow> Name t0
      | Some (String t) \<Rightarrow> Trim t ''-''
      | _ \<Rightarrow> Name q0)"
  by (cases "Value q0") (auto simp: amended_firstIndexableField_def split: list.splits)

lemma orderby_switch:
  "(case k of
      Some (D t) \<Rightarrow>
        (case t of [] \<Rightarrow> Inl (Panic ''index out of range'') | t0 # ts \<Rightarrow> Inr (Name t0))
    | Some (String t) \<Rightarrow> Inr (Trim t ''-'')
    | _ \<Rightarrow> Inr n) = Inr f \<Longrightarrow>
   f = (case k of
          Some (D (t0 # ts)) \<Rightarrow> Name t0
        | Some (String t) \<Rightarrow> Trim t ''-''
        | _ \<Rightarrow> n)"
  by (cases k) (auto split: bson.splits list.splits)

lemma firstIndexableField_amended:
  assumes "firstIndexableField w q = Inr f"
  shows "f = amended_firstIndexableField w q"
proof (cases q)
  case Nil
  with assms show ?thesis by (simp add: firstIndexableField_def)
next
  case (Cons q0 rest)
  show ?thesis
  proof (cases "TrimLeft (Name q0) ''$'' = ''query'' \<and> rest \<noteq> []")
    case False
    from firstIndexableField_bare[OF False] amended_bare[OF False] assms Cons
    show ?thesis by simp
  next
    case True
    then have nm: "TrimLeft (Name q0) ''$'' = ''query''" and ne: "rest \<noteq> []" by auto
    show ?thesis
    proof (cases "\<exists>v0 vs. Value q0 = D (v0 # vs)")
      case True
      then obtain v0 vs where v: "Value q0 = D (v0 # vs)" by blast
      from firstIndexableField_inner[OF nm ne v] amended_inner[OF nm ne v] assms Cons
      show ?thesis by simp
    next
      case False
      then have no: "\<forall>v0 vs. Value q0 \<noteq> D (v0 # vs)" by blast
      from assms Cons firstIndexableField_orderby[OF nm ne no]
      have "(case getKey w (q0 # rest) ''orderby'' of
        Some (D t) \<Rightarrow>
          (case t of [] \<Rightarrow> Inl (Panic ''index out of range'') | t0 # ts \<Rightarrow> Inr (Name t0))
      | Some (String t) \<Rightarrow> Inr (Trim t ''-'')
      | _ \<Rightarrow> Inr (Name q0)) = Inr f" by simp
      from orderby_switch[OF this] amended_orderby[OF nm ne no] Cons
      show ?thesis by simp
    qed
  qed
qed

text \<open>The inputs on which \<^verbatim>\<open>firstIndexableField\<close> panics: the empty document, and a wrapped
  query whose query value is not a non-empty document and whose \<open>orderby\<close> is an empty
  document.\<close>

lemma orderby_switch_panics:
  "(\<exists>pn. (case k of
      Some (D t) \<Rightarrow>
        (case t of [] \<Rightarrow> Inl (Panic ''index out of range'') | t0 # ts \<Rightarrow> Inr (Name t0))
    | Some (String t) \<Rightarrow> Inr (Trim t ''-'')
    | _ \<Rightarrow> Inr n) = Inl pn) \<longleftrightarrow> k = Some (D [])"
  by (cases k) (auto split: bson.splits list.splits)

lemma firstIndexableField_panics_iff:
  "(\<exists>pn. firstIndexableField w q = Inl pn) \<longleftrightarrow>
     (q = [] \<or> (length q > 1 \<and> TrimLeft (Name (q ! 0)) ''$'' = ''query''
                \<and> (\<forall>v0 vs. Value (q ! 0) \<noteq> D (v0 # vs))
                \<and> getKey w q ''orderby'' = Some (D [])))"
proof (cases q)
  case Nil
  then show ?thesis by (simp add: firstIndexableField_def)
next
  case (Cons q0 rest)
  show ?thesis
  proof (cases "TrimLeft (Name q0) ''$'' = ''query'' \<and> rest \<noteq> []")
    case False
    from firstIndexableField_bare[OF False] Cons False show ?thesis by auto
  next
    case True
    then have nm: "TrimLeft (Name q0) ''$'' = ''query''" and ne: "rest \<noteq> []" by auto
    show ?thesis
    proof (cases "\<exists>v0 vs. Value q0 = D (v0 # vs)")
      case True
      then obtain v0 vs where v: "Value q0 = D (v0 # vs)" by blast
      from firstIndexableField_inner[OF nm ne v] Cons v show ?thesis by auto
    next
      case False
      then have no: "\<forall>v0 vs. Value q0 \<noteq> D (v0 # vs)" by blast
      have len: "length q > 1" using Cons ne by (cases rest) auto
      show ?thesis
        unfolding Cons firstIndexableField_orderby[OF nm ne no] orderby_switch_panics
        using nm ne no by (cases rest) auto
    qed
  qed
qed

lemma index_loop_iff:
  "index_loop w indexes f = Inr b \<Longrightarrow>
     b \<longleftrightarrow> (\<exists>index\<in>set indexes. \<exists>k0 ks. Key index = k0 # ks \<and> EqualFold w (Trim k0 ''-'') f)"
  by (induction indexes) (auto split: list.splits if_splits)

text \<open>
  When the inspector returns, it admits the query if and only if the document count is 0 or
  some index has a first key that, with \<open>-\<close> stripped from both ends, is equal under
  \<^verbatim>\<open>strings.EqualFold\<close> to the first indexable field.
\<close>

lemma checkForIndex_rule:
  assumes "checkForIndex w p db c q = Inr b"
  shows "b \<longleftrightarrow>
           fst (Count (backChannel p) db c) = 0
           \<or> (\<exists>index\<in>set (fst (Indexes (backChannel p) db c)). \<exists>k0 ks.
                 Key index = k0 # ks
                 \<and> EqualFold w (Trim k0 ''-'') (amended_firstIndexableField w q))"
proof (cases "fst (Count (backChannel p) db c) = 0")
  case True
  with assms show ?thesis by (auto simp: checkForIndex_def split: prod.splits)
next
  case False
  with assms obtain f where f: "firstIndexableField w q = Inr f"
    and loop: "index_loop w (fst (Indexes (backChannel p) db c)) f = Inr b"
    by (auto simp: checkForIndex_def split: prod.splits sum.splits)
  from firstIndexableField_amended[OF f] index_loop_iff[OF loop] False show ?thesis by simp
qed

lemma S1_admit: "checkForIndex S_world S5_proxy ''app'' ''users'' [(''email'', String ''a@b'')] = Inr True"
  by (simp add: checkForIndex_def S5_proxy_def firstIndexableField_def
      TrimLeft_def Trim_def TrimRight_def)

text \<open>
  The two control-channel failures of the inspector: a failed count that comes with the
  zero value admits, a failed index listing rejects every query whose first indexable field
  is computed.
\<close>

lemma checkForIndex_count_failed:
  "Count (backChannel p) db c = (0, Some e) \<Longrightarrow> checkForIndex w p db c q = Inr True"
  by (simp add: checkForIndex_def)

lemma checkForIndex_indexes_failed:
  "fst (Count (backChannel p) db c) \<noteq> 0 \<Longrightarrow> Indexes (backChannel p) db c = ([], Some e) \<Longrightarrow>
   firstIndexableField w q = Inr f \<Longrightarrow> checkForIndex w p db c q = Inr False"
  by (cases "Count (backChannel p) db c") (simp add: checkForIndex_def)

text \<open>
  Claim C10. With a count of 3 and a failed index listing, the non-bypass query
  \<open>{$query: {}, orderby: {}}\<close> is not rejected: the inspector panics on the first key of the
  empty \<open>orderby\<close> document.
\<close>

theorem checkForIndex_empty_orderby_panics:
  "checkForIndex S_world lost_indexes_proxy ''app'' ''users'' [(''$query'', D []), (''orderby'', D [])]
     = Inl (Panic ''index out of range'')"
  by (simp add: checkForIndex_def lost_indexes_proxy_def S5_proxy_def firstIndexableField_def
      getKey_def keyIndex_def TrimLeft_def Let_def)


section \<open>Properties of the wire codec and of connections\<close>

lemma getInt32_setInt32: "getInt32 (setInt32 w @ rest) 0 = w"
proof (rule bit_word_eqI)
  fix n :: nat
  assume n: "n < LENGTH(32)"
  then have n32: "n < 32" by simp
  consider "n < 8" | "8 \<le> n \<and> n < 16" | "16 \<le> n \<and> n < 24" | "24 \<le> n \<and> n < 32"
    using n32 by linarith
  then show "bit (getInt32 (setInt32 w @ rest) 0) n = bit w n"
  proof cases
    case 1 then show ?thesis by (simp add: getInt32_def setInt32_def bit_simps)
  next
    case 2 then show ?thesis by (auto simp add: getInt32_def setInt32_def bit_simps)
  next
    case 3 then show ?thesis by (auto simp add: getInt32_def setInt32_def bit_simps)
  next
    case 4 then show ?thesis by (auto simp add: getInt32_def setInt32_def bit_simps)
  qed
qed

lemma getInt32_drop: "getInt32 b (pos + k) = getInt32 (drop k b) pos" if "pos + k + 3 < length b"
  using that by (simp add: getInt32_def add_ac)

lemma length_setInt32: "length (setInt32 w) = 4"
  by (simp add: setInt32_def)

lemma FromWire_ToWire: "FromWire (ToWire h @ rest) = h"
proof -
  have a: "getInt32 (ToWire h @ rest) 0 = MessageLength h"
    by (simp add: ToWire_def getInt32_setInt32)
  have b: "getInt32 (ToWire h @ rest) 4 = RequestID h"
    using getInt32_drop[of 0 4 "ToWire h @ rest"] getInt32_setInt32
    by (simp add: ToWire_def length_setInt32)
  have c: "getInt32 (ToWire h @ rest) 8 = ResponseTo h"
    using getInt32_drop[of 0 8 "ToWire h @ rest"] getInt32_setInt32
    by (simp add: ToWire_def length_setInt32)
  have d: "getInt32 (ToWire h @ rest) 12 = OpCode h"
    using getInt32_drop[of 0 12 "ToWire h @ rest"] getInt32_setInt32[of "OpCode h" rest]
    by (simp add: ToWire_def length_setInt32)
  show ?thesis by (simp add: FromWire_def a b c d)
qed

text \<open>What \<^verbatim>\<open>Write\<close> and the loop over the parts do to a connection.\<close>

lemma written_bytes_append: "written_bytes (es @ fs) = written_bytes es @ written_bytes fs"
  by (induction es rule: written_bytes.induct) auto

lemma Write_effect:
  assumes "Write c b = ((n, e), c')"
  shows "written_bytes (events c') = written_bytes (events c) @ accepted c b"
    and "(e = None) = fits c b"
    and "e = None \<Longrightarrow> wr_room c' = (case wr_room c of None \<Rightarrow> None | Some r \<Rightarrow> Some (r - length b))"
    and "e \<noteq> None \<Longrightarrow> wr_room c' = Some 0"
    and "e \<noteq> None \<Longrightarrow> e = Some (wr_err c)"
    and "rd c' = rd c" and "rd_err c' = rd_err c" and "wr_err c' = wr_err c"
    and "RemoteAddr c' = RemoteAddr c"
    and "(Close \<in> set (events c')) = (Close \<in> set (events c))"
    and "filter (\<lambda>e. \<forall>b. e \<noteq> Wrote b) (events c') = filter (\<lambda>e. \<forall>b. e \<noteq> Wrote b) (events c)"
    and "e = None \<Longrightarrow> n = length b"
  using assms
  by (auto simp: Write_def accepted_def fits_def written_bytes_append split: option.splits if_splits)

lemma write_parts_effect:
  "write_parts c parts k = ((n, e), c') \<Longrightarrow>
     written_bytes (events c') = written_bytes (events c) @ accepted c (concat parts)
     \<and> (e = None) = fits c (concat parts)
     \<and> (e \<noteq> None \<longrightarrow> e = Some (wr_err c))
     \<and> (e = None \<longrightarrow> n = k + length (concat parts))
     \<and> rd c' = rd c \<and> rd_err c' = rd_err c \<and> wr_err c' = wr_err c \<and> RemoteAddr c' = RemoteAddr c
     \<and> (Close \<in> set (events c')) = (Close \<in> set (events c))
     \<and> filter (\<lambda>e. \<forall>b. e \<noteq> Wrote b) (events c') = filter (\<lambda>e. \<forall>b. e \<noteq> Wrote b) (events c)"
proof (induction parts arbitrary: c k)
  case Nil
  then show ?case by (auto simp: accepted_def fits_def split: option.splits)
next
  case (Cons b parts)
  obtain m e1 c1 where w: "Write c b = ((m, e1), c1)" by (metis prod.exhaust)
  note W = Write_effect[OF w]
  show ?case
  proof (cases e1)
    case (Some err)
    with w Cons.prems have res: "e = Some err" "c' = c1" by auto
    from Some W(2) have nf: "\<not> fits c b" by simp
    then obtain r where r: "wr_room c = Some r" "r < length b"
      by (auto simp: fits_def split: option.splits)
    then have "accepted c (concat (b # parts)) = accepted c b"
      by (simp add: accepted_def)
    moreover have "\<not> fits c (concat (b # parts))" using r by (simp add: fits_def)
    ultimately show ?thesis using res W Some by auto
  next
    case None
    with w Cons.prems have rec: "write_parts c1 parts (k + m) = ((n, e), c')" by simp
    note IH = Cons.IH[OF rec]
    from None W(2) have f: "fits c b" by simp
    from None W(12) have m: "m = length b" by simp
    from None W(3) have room: "wr_room c1 = (case wr_room c of None \<Rightarrow> None | Some r \<Rightarrow> Some (r - length b))" by simp
    have acc: "accepted c b @ accepted c1 (concat parts) = accepted c (concat (b # parts))"
      using f room by (auto simp: accepted_def fits_def split: option.splits)
    have fit: "fits c1 (concat parts) = fits c (concat (b # parts))"
      using f room by (auto simp: fits_def split: option.splits)
    show ?thesis using IH W(1,6,7,8,9,10,11) acc fit m by (auto simp: add.assoc)
  qed
qed

lemma sendErrorToClient_effect:
  assumes "sendErrorToClient w h c err code = (e, c')"
  shows "written_bytes (events c') = written_bytes (events c) @ accepted c (errorReply w h err code)"
    and "(e = None) = fits c (errorReply w h err code)"
    and "rd c' = rd c"
    and "(Close \<in> set (events c')) = (Close \<in> set (events c))"
    and "filter (\<lambda>e. \<forall>b. e \<noteq> Wrote b) (events c') = filter (\<lambda>e. \<forall>b. e \<noteq> Wrote b) (events c)"
    and "RemoteAddr c' = RemoteAddr c"
proof -
  let ?doc = "Marshal w (errorDoc_of err code)"
  let ?hdr = "\<lparr>MessageLength = of_nat (headerLen + length errorBytes + length ?doc),
             RequestID = RequestID h, ResponseTo = RequestID h, OpCode = OpReply\<rparr>"
  obtain n where wp: "write_parts c [ToWire ?hdr, errorBytes, ?doc] 0 = ((n, e), c')"
    using assms by (auto simp: sendErrorToClient_def Let_def split: prod.splits)
  have cc: "concat [ToWire ?hdr, errorBytes, ?doc] = errorReply w h err code"
    by (simp add: errorReply_def)
  note E = write_parts_effect[OF wp, unfolded cc]
  from E show "written_bytes (events c') = written_bytes (events c) @ accepted c (errorReply w h err code)" by blast
  from E show "(e = None) = fits c (errorReply w h err code)" by blast
  from E show "rd c' = rd c" by blast
  from E show "(Close \<in> set (events c')) = (Close \<in> set (events c))" by blast
  from E show "filter (\<lambda>e. \<forall>b. e \<noteq> Wrote b) (events c') = filter (\<lambda>e. \<forall>b. e \<noteq> Wrote b) (events c)" by blast
  from E show "RemoteAddr c' = RemoteAddr c" by blast
qed

lemma errorReply_header:
  "FromWire (errorReply w h err code) =
     \<lparr>MessageLength = of_nat (headerLen + length errorBytes + length (Marshal w (errorDoc_of err code))),
      RequestID = RequestID h, ResponseTo = RequestID h, OpCode = OpReply\<rparr>"
  unfolding errorReply_def by (rule FromWire_ToWire)

lemma length_ToWire: "length (ToWire h) = 16"
  by (simp add: ToWire_def length_setInt32)

lemma errorReply_body:
  "drop 16 (errorReply w h err code) = errorBytes @ Marshal w (errorDoc_of err code)"
  by (simp add: errorReply_def length_ToWire)

text \<open>Reading changes nothing of a connection but the bytes still to be read.\<close>

lemma ReadFull_keeps: "ReadFull c n = (r, c') \<Longrightarrow> c' = c\<lparr>rd := rd c'\<rparr>"
  by (auto simp: ReadFull_def split: if_splits)

lemma readCString_keeps: "readCString c = (r, c') \<Longrightarrow> c' = c\<lparr>rd := rd c'\<rparr>"
  by (auto simp: readCString_def split: if_splits)

lemma readDocument_keeps: "readDocument c = (r, c') \<Longrightarrow> c' = c\<lparr>rd := rd c'\<rparr>"
proof -
  assume a: "readDocument c = (r, c')"
  obtain r1 c1 where r1: "ReadFull c 4 = (r1, c1)" by (metis prod.exhaust)
  note k1 = ReadFull_keeps[OF r1]
  show ?thesis
  proof (cases r1)
    case (Inl e)
    with a r1 k1 show ?thesis by (simp add: readDocument_def)
  next
    case (Inr sizeRaw)
    let ?size = "sint (getInt32 sizeRaw 0)"
    show ?thesis
    proof (cases "?size < 0 \<or> ?size > 48 * 1024 * 1024")
      case True
      with a r1 Inr k1 show ?thesis by (simp add: readDocument_def Let_def)
    next
      case False
      obtain r2 c2 where r2: "ReadFull c1 (nat ?size - 4) = (r2, c2)" by (metis prod.exhaust)
      note k2 = ReadFull_keeps[OF r2]
      from a r1 Inr False r2 have "c' = c2"
        by (cases r2) (simp_all add: readDocument_def Let_def)
      with k1 k2 show ?thesis by (metis conn.surjective conn.update_convs(2) conn.select_convs)
    qed
  qed
qed

lemma readHeader_keeps: "readHeader c = (r, c') \<Longrightarrow> c' = c\<lparr>rd := rd c'\<rparr>"
proof -
  assume a: "readHeader c = (r, c')"
  obtain r1 c1 where r1: "ReadFull c headerLen = (r1, c1)" by (metis prod.exhaust)
  from a r1 have "c' = c1" by (cases r1) (simp_all add: readHeader_def)
  with ReadFull_keeps[OF r1] show ?thesis by simp
qed

lemma clientReadHeader_keeps:
  "clientReadHeader p c = (r, c') \<Longrightarrow>
     c' = c\<lparr>events := events c @ [SetReadDeadline (clientIdleTimeout p)], rd := rd c'\<rparr>"
proof -
  assume a: "clientReadHeader p c = (r, c')"
  let ?c = "c\<lparr>events := events c @ [SetReadDeadline (clientIdleTimeout p)]\<rparr>"
  obtain r1 c1 where r1: "readHeader ?c = (r1, c1)" by (metis prod.exhaust)
  from a r1 have "c' = c1" by (cases r1) (auto simp: clientReadHeader_def Let_def split: if_splits)
  with readHeader_keeps[OF r1] show ?thesis by simp
qed

section \<open>Properties of the query handler\<close>

text \<open>The paths of \<^verbatim>\<open>handleQueryRequest\<close> for a query that is read in full and is not a bypass.\<close>

lemma handleQueryRequest_reject:
  assumes "ReadFull cli 4 = (Inr flags, c1)"
      and "readCString c1 = (Inr ns, c2)"
      and "ReadFull c2 8 = (Inr two, c3)"
      and "readDocument c3 = (Inr queryDoc, c4)"
      and "Unmarshal w queryDoc = Inr q"
      and "\<not> (HasSuffix ns cmdCollectionSuffix \<or> HasSuffix ns indexCollectionSuffix
              \<or> Contains ns systemCollection)"
      and "length q > 0"
      and "splitDatabaseCollection (string_of (butlast ns)) = Inr (db, coll)"
      and "checkForIndex w p db coll q = Inr False"
  shows "handleQueryRequest w p h cli srv cl =
           (case sendErrorToClient w h c4 (rejectionError coll) 17357 of
              (e, c5) \<Rightarrow> (Inr e, c5, srv, cl))"
  using assms by (simp add: handleQueryRequest_def rejectionError_def Let_def)

lemma handleQueryRequest_admit:
  assumes "ReadFull cli 4 = (Inr flags, c1)"
      and "readCString c1 = (Inr ns, c2)"
      and "ReadFull c2 8 = (Inr two, c3)"
      and "readDocument c3 = (Inr queryDoc, c4)"
      and "Unmarshal w queryDoc = Inr q"
      and "\<not> (HasSuffix ns cmdCollectionSuffix \<or> HasSuffix ns indexCollectionSuffix
              \<or> Contains ns systemCollection)"
      and "length q > 0"
      and "splitDatabaseCollection (string_of (butlast ns)) = Inr (db, coll)"
      and "checkForIndex w p db coll q = Inr True"
      and "mutateQuery w p q (case RemoteAddr cli of Some a \<Rightarrow> a | None \<Rightarrow> ''unknown'') (uuid_New w) = Inr q'"
  shows "handleQueryRequest w p h cli srv cl =
           forwardQuery w p
             (h\<lparr>MessageLength := MessageLength h - of_nat (length queryDoc) + of_nat (length (Marshal w q'))\<rparr>)
             c4 srv
             [ToWire (h\<lparr>MessageLength := MessageLength h - of_nat (length queryDoc) + of_nat (length (Marshal w q'))\<rparr>),
              flags, ns, two, Marshal w q']
             q' [] (string_of (butlast ns)) cl"
  using assms by (simp add: handleQueryRequest_def Let_def)

lemma handleQueryRequest_mutator_panic:
  assumes "ReadFull cli 4 = (Inr flags, c1)"
      and "readCString c1 = (Inr ns, c2)"
      and "ReadFull c2 8 = (Inr two, c3)"
      and "readDocument c3 = (Inr queryDoc, c4)"
      and "Unmarshal w queryDoc = Inr q"
      and "\<not> (HasSuffix ns cmdCollectionSuffix \<or> HasSuffix ns indexCollectionSuffix
              \<or> Contains ns systemCollection)"
      and "length q > 0"
      and "splitDatabaseCollection (string_of (butlast ns)) = Inr (db, coll)"
      and "checkForIndex w p db coll q = Inr True"
      and "mutateQuery w p q (case RemoteAddr cli of Some a \<Rightarrow> a | None \<Rightarrow> ''unknown'') (uuid_New w) = Inl pn"
  shows "handleQueryRequest w p h cli srv cl = (Inl pn, c4, srv, cl)"
  using assms by (simp add: handleQueryRequest_def Let_def)

text \<open>A panic of the handler ends the pump.\<close>

lemma pump_iteration_panic:
  assumes "clientReadHeader p (client st) = (Inr h, c0)"
      and "upstream st = Some s"
      and "handleMessage w p h c0 s (ctl st) = (Inl pn, c', s', cl')"
  shows "pump_iteration w p st = Crashed pn (st\<lparr>client := c', upstream := Some s', ctl := cl'\<rparr>)"
  using assms by (simp add: pump_iteration_def)

text \<open>One round of the dialer's loop; with an endpoint configured it does not panic.\<close>

lemma newServerConn_loop_Suc:
  "srvs \<noteq> [] \<Longrightarrow>
   newServerConn_loop w srvs (Suc n) d l k =
     (case Dial w k (chosen_server w srvs k) of
        Inr c \<Rightarrow> (Inr (Inr c), [Dialed (chosen_server w srvs k)])
      | Inl err \<Rightarrow>
          (case newServerConn_loop w srvs n (wrap64 (d * 2)) (chosen_server w srvs k) (Suc k) of
             (r, tr) \<Rightarrow> (r, Dialed (chosen_server w srvs k) # Slept d # tr)))"
proof -
  assume "srvs \<noteq> []"
  then obtain s0 rest where s: "srvs = s0 # rest" by (cases srvs) auto
  show ?thesis unfolding s chosen_server_def
    by (simp add: Let_def cong: sum.case_cong prod.case_cong)
qed

lemma newServerConn_loop_no_panic:
  "srvs \<noteq> [] \<Longrightarrow> fst (newServerConn_loop w srvs n d l k) \<noteq> Inl pn"
proof (induction n arbitrary: d l k)
  case 0 then show ?case by simp
next
  case (Suc n)
  show ?case
  proof (cases "Dial w k (chosen_server w srvs k)")
    case (Inr c)
    then show ?thesis by (simp add: newServerConn_loop_Suc[OF Suc.prems] del: newServerConn_loop.simps)
  next
    case (Inl e)
    obtain r tr where rt: "newServerConn_loop w srvs n (wrap64 (d * 2)) (chosen_server w srvs k) (Suc k) = (r, tr)"
      by (metis prod.exhaust)
    with Suc.IH[OF Suc.prems, of "wrap64 (d * 2)" "chosen_server w srvs k" "Suc k"] have "r \<noteq> Inl pn" by simp
    with Inl rt show ?thesis
      by (simp add: newServerConn_loop_Suc[OF Suc.prems] del: newServerConn_loop.simps)
  qed
qed

text \<open>
  One pass of the pump over a query that the inspector rejects, when the header and the four
  fields of the query are read: in that pass nothing is written upstream and no
  control-channel call is made; the bytes written to the client are those of one synthetic
  reply (all of them when the client takes them, else the part it takes) whose header is a
  Reply with \<open>responseTo\<close> the request id and whose body is the prelude and the one document
  with the message naming \<open>db.<collection>.getIndexes()\<close> and code 17357; the client is not
  closed, and the loop goes round to the next header. What the message holds after its query
  document is left unread.
\<close>

lemma rejected_query_reply:
  assumes hdr: "clientReadHeader p (client st) = (Inr h, c0)"
      and up: "upstream st = Some s"
      and srv: "servers p \<noteq> []"
      and op: "OpCode h = OpQuery"
      and r1: "ReadFull (c0\<lparr>events := events c0 @ [SetDeadline (messageTimeout p)]\<rparr>) 4 = (Inr flags, c1)"
      and r2: "readCString c1 = (Inr ns, c2)"
      and r3: "ReadFull c2 8 = (Inr two, c3)"
      and r4: "readDocument c3 = (Inr queryDoc, c4)"
      and um: "Unmarshal w queryDoc = Inr q"
      and nb: "\<not> (HasSuffix ns cmdCollectionSuffix \<or> HasSuffix ns indexCollectionSuffix
              \<or> Contains ns systemCollection)"
      and ne: "length q > 0"
      and sp: "splitDatabaseCollection (string_of (butlast ns)) = Inr (db, coll)"
      and rej: "checkForIndex w p db coll q = Inr False"
  shows "\<exists>st'. pump_iteration w p st = Continue st'
           \<and> written_bytes (events (client st')) =
               written_bytes (events (client st))
                 @ accepted (client st) (errorReply w h (rejectionError coll) 17357)
           \<and> FromWire (errorReply w h (rejectionError coll) 17357) =
               \<lparr>MessageLength = of_nat (headerLen + length errorBytes
                                  + length (Marshal w (errorDoc_of (rejectionError coll) 17357))),
                RequestID = RequestID h, ResponseTo = RequestID h, OpCode = OpReply\<rparr>
           \<and> drop 16 (errorReply w h (rejectionError coll) 17357) =
               errorBytes @ Marshal w [(''$err'', String (''No index was found that could be used for your query try db.'' @ coll @ ''.getIndexes()'')),
                                        (''code'', Int32 17357)]
           \<and> (Close \<in> set (events (client st'))) = (Close \<in> set (events (client st)))
           \<and> ctl st' = ctl st
           \<and> (if fits (client st) (errorReply w h (rejectionError coll) 17357)
               then upstream st' = Some (s\<lparr>events := events s @ [SetDeadline (messageTimeout p)]\<rparr>)
                    \<and> dropped st' = dropped st
               else dropped st' = dropped st @ [s\<lparr>events := events s @ [SetDeadline (messageTimeout p), Close]\<rparr>])"
proof -
  let ?reply = "errorReply w h (rejectionError coll) 17357"
  let ?cl = "c0\<lparr>events := events c0 @ [SetDeadline (messageTimeout p)]\<rparr>"
  let ?sv = "s\<lparr>events := events s @ [SetDeadline (messageTimeout p)]\<rparr>"
  obtain e c5 where se: "sendErrorToClient w h c4 (rejectionError coll) 17357 = (e, c5)"
    by (metis prod.exhaust)
  note E = sendErrorToClient_effect[OF se]
  have hq: "handleQueryRequest w p h ?cl ?sv (ctl st) = (Inr e, c5, ?sv, ctl st)"
    using handleQueryRequest_reject[OF r1 r2 r3 r4 um nb ne sp rej, of h ?sv "ctl st"] se by simp
  have hm: "handleMessage w p h c0 s (ctl st) = (Inr e, c5, ?sv, ctl st)"
    using hq op by (simp add: handleMessage_def Let_def)
  have k0: "c0 = (client st)\<lparr>events := events (client st) @ [SetReadDeadline (clientIdleTimeout p)], rd := rd c0\<rparr>"
    by (rule clientReadHeader_keeps[OF hdr])
  have k4: "c4 = ?cl\<lparr>rd := rd c4\<rparr>"
    using ReadFull_keeps[OF r1] readCString_keeps[OF r2] ReadFull_keeps[OF r3] readDocument_keeps[OF r4]
    by (metis conn.surjective conn.update_convs(2))
  have room: "wr_room c4 = wr_room (client st)"
    by (subst k4, subst k0) simp
  have ev4: "events c4 = events (client st) @ [SetReadDeadline (clientIdleTimeout p), SetDeadline (messageTimeout p)]"
    by (subst k4, subst k0) simp
  have acc: "accepted c4 ?reply = accepted (client st) ?reply" by (simp add: accepted_def room)
  have fit: "fits c4 ?reply = fits (client st) ?reply" by (simp add: fits_def room)
  have wb: "written_bytes (events c5) = written_bytes (events (client st)) @ accepted (client st) ?reply"
    using E(1) acc by (simp add: ev4 written_bytes_append)
  have cl: "(Close \<in> set (events c5)) = (Close \<in> set (events (client st)))"
    using E(4) by (simp add: ev4)
  have hd: "FromWire ?reply =
               \<lparr>MessageLength = of_nat (headerLen + length errorBytes
                                  + length (Marshal w (errorDoc_of (rejectionError coll) 17357))),
                RequestID = RequestID h, ResponseTo = RequestID h, OpCode = OpReply\<rparr>"
    by (rule errorReply_header)
  have bd: "drop 16 ?reply =
               errorBytes @ Marshal w [(''$err'', String (''No index was found that could be used for your query try db.'' @ coll @ ''.getIndexes()'')),
                                        (''code'', Int32 17357)]"
    by (simp add: errorReply_body errorDoc_of_def rejectionError_def)
  show ?thesis
  proof (cases e)
    case None
    with E(2) fit have f: "fits (client st) ?reply" by simp
    have "pump_iteration w p st = Continue (st\<lparr>client := c5, upstream := Some ?sv, ctl := ctl st\<rparr>)"
      using hdr up hm None by (simp add: pump_iteration_def)
    then show ?thesis using wb cl hd bd f by simp
  next
    case (Some err)
    with E(2) fit have f: "\<not> fits (client st) ?reply" by simp
    obtain r tr where nc: "newServerConn w p (dials st) = (r, tr)" by (metis prod.exhaust)
    have np: "\<And>pn. r \<noteq> Inl pn"
      using newServerConn_loop_no_panic[OF srv, of w 7 "50 * Millisecond" "[]" "dials st"] nc
      by (simp add: newServerConn_def)
    let ?st' = "st\<lparr>client := c5,
                    dropped := dropped st @ [?sv\<lparr>events := events ?sv @ [Close]\<rparr>],
                    dials := dials st + length (filter is_Dialed tr),
                    ctl := ctl st\<rparr>"
    have "pump_iteration w p st =
            (case r of Inl pn \<Rightarrow> Crashed pn (?st'\<lparr>upstream := None\<rparr>)
                     | Inr (Inl e) \<Rightarrow> Continue (?st'\<lparr>upstream := None\<rparr>)
                     | Inr (Inr s2) \<Rightarrow> Continue (?st'\<lparr>upstream := Some s2\<rparr>))"
      using hdr up hm Some nc by (simp add: pump_iteration_def Let_def)
    then obtain u where "pump_iteration w p st = Continue (?st'\<lparr>upstream := u\<rparr>)"
      using np by (cases r) (auto split: sum.splits)
    then show ?thesis using wb cl hd bd f by simp
  qed
qed

lemma FromWire_ToWire_only: "FromWire (ToWire h) = h"
  using FromWire_ToWire[of h "[]"] by simp

lemma ReadFull_prefix:
  "length a = n \<Longrightarrow> ReadFull (c\<lparr>rd := a @ b\<rparr>) n = (Inr a, c\<lparr>rd := b\<rparr>)"
  by (simp add: ReadFull_def)

lemma S2_readHeader:
  "clientReadHeader S5_proxy S2_client =
     (Inr S2_header,
      S2_client\<lparr>events := [SetReadDeadline (60 * Second)], rd := query_body ''app.users'' S2_doc\<rparr>)"
proof -
  let ?c = "S2_client\<lparr>events := events S2_client @ [SetReadDeadline (clientIdleTimeout S5_proxy)]\<rparr>"
  have "ReadFull ?c headerLen =
          (Inr (ToWire S2_header), ?c\<lparr>rd := query_body ''app.users'' S2_doc\<rparr>)"
    using ReadFull_prefix[where a="ToWire S2_header" and n=headerLen and c="?c" and b="query_body ''app.users'' S2_doc"]
    by (simp add: length_ToWire headerLen_def S2_client_def)
  then show ?thesis
    by (simp add: clientReadHeader_def readHeader_def Let_def FromWire_ToWire_only S2_client_def S5_proxy_def)
qed

lemma S2_read_flags: "ReadFull S2_reading 4 = (Inr [0, 0, 0, 0], S2_reading\<lparr>rd := bytes_of ''app.users'' @ [0] @ [0, 0, 0, 0, 0, 0, 0, 0] @ S2_doc\<rparr>)"
  by (simp add: ReadFull_def S2_reading_def query_body_def)

lemma S2_read_namespace: "readCString (S2_reading\<lparr>rd := bytes_of ''app.users'' @ [0] @ [0, 0, 0, 0, 0, 0, 0, 0] @ S2_doc\<rparr>)
   = (Inr (bytes_of ''app.users'' @ [0]), S2_reading\<lparr>rd := [0, 0, 0, 0, 0, 0, 0, 0] @ S2_doc\<rparr>)"
  by (simp add: readCString_def bytes_of_def)

lemma S2_read_counts: "ReadFull (S2_reading\<lparr>rd := [0, 0, 0, 0, 0, 0, 0, 0] @ S2_doc\<rparr>) 8
   = (Inr [0, 0, 0, 0, 0, 0, 0, 0], S2_reading\<lparr>rd := S2_doc\<rparr>)"
  by (simp add: ReadFull_def)

lemma S2_read_document: "readDocument (S2_reading\<lparr>rd := S2_doc\<rparr>) = (Inr S2_doc, S2_reading\<lparr>rd := []\<rparr>)"
  by (simp add: readDocument_def ReadFull_def S2_doc_def getInt32_def Let_def)

lemma S2_unmarshal: "Unmarshal S_world S2_doc = Inr [(''name'', String ''x'')]"
  by (simp add: S_world_def S2_doc_def S1_doc_def)

lemma users_not_bypass:
  "\<not> (HasSuffix (bytes_of ''app.users'' @ [0]) cmdCollectionSuffix
      \<or> HasSuffix (bytes_of ''app.users'' @ [0]) indexCollectionSuffix
      \<or> Contains (bytes_of ''app.users'' @ [0]) systemCollection)"
  by (simp add: HasSuffix_def cmdCollectionSuffix_def indexCollectionSuffix_def systemCollection_def bytes_of_def)

lemma users_split:
  "splitDatabaseCollection (string_of (butlast (bytes_of ''app.users'' @ [0]))) = Inr (''app'', ''users'')"
  by (simp add: splitDatabaseCollection_def SplitN2_def string_of_def bytes_of_def char_of_byte_def)

lemma S2_reject: "checkForIndex S_world S5_proxy ''app'' ''users'' [(''name'', String ''x'')] = Inr False"
  by (simp add: checkForIndex_def S5_proxy_def firstIndexableField_def
      TrimLeft_def Trim_def TrimRight_def)

text \<open>Scenario S2, a message that ends with its query document: the query on \<open>name\<close> is
  rejected, the client gets the reply, the server nothing.\<close>

lemma rejected_query_reply_S2:
  "\<exists>st'. pump_iteration S_world S5_proxy S2_pump = Continue st'
     \<and> written_bytes (events (client st')) = errorReply S_world S2_header (rejectionError ''users'') 17357
     \<and> upstream st' = Some (idle_server\<lparr>events := [SetDeadline (5 * Second)]\<rparr>)"
proof -
  have hdr: "clientReadHeader S5_proxy (client S2_pump) =
     (Inr S2_header,
      S2_client\<lparr>events := [SetReadDeadline (60 * Second)], rd := query_body ''app.users'' S2_doc\<rparr>)"
    using S2_readHeader by (simp add: S2_pump_def)
  have c0: "(S2_client\<lparr>events := [SetReadDeadline (60 * Second)], rd := query_body ''app.users'' S2_doc\<rparr>)
              \<lparr>events := events (S2_client\<lparr>events := [SetReadDeadline (60 * Second)], rd := query_body ''app.users'' S2_doc\<rparr>)
                          @ [SetDeadline (messageTimeout S5_proxy)]\<rparr> = S2_reading"
    by (simp add: S2_reading_def S5_proxy_def)
  have r1: "ReadFull ((S2_client\<lparr>events := [SetReadDeadline (60 * Second)], rd := query_body ''app.users'' S2_doc\<rparr>)
              \<lparr>events := events (S2_client\<lparr>events := [SetReadDeadline (60 * Second)], rd := query_body ''app.users'' S2_doc\<rparr>)
                          @ [SetDeadline (messageTimeout S5_proxy)]\<rparr>) 4
             = (Inr [0, 0, 0, 0], S2_reading\<lparr>rd := bytes_of ''app.users'' @ [0] @ [0, 0, 0, 0, 0, 0, 0, 0] @ S2_doc\<rparr>)"
    unfolding c0 by (rule S2_read_flags)
  have up: "upstream S2_pump = Some idle_server" by (simp add: S2_pump_def)
  have srv: "servers S5_proxy \<noteq> []" by (simp add: S5_proxy_def)
  have op: "OpCode S2_header = OpQuery" by (simp add: S2_header_def)
  have ne: "length [(''name'', String ''x'')] > 0" by simp
  have fit: "fits (client S2_pump) (errorReply S_world S2_header (rejectionError ''users'') 17357)"
    by (simp add: fits_def S2_pump_def S2_client_def)
  have acc: "accepted (client S2_pump) (errorReply S_world S2_header (rejectionError ''users'') 17357)
               = errorReply S_world S2_header (rejectionError ''users'') 17357"
    by (simp add: accepted_def S2_pump_def S2_client_def)
  have ev: "events (client S2_pump) = []" "events idle_server = []" "messageTimeout S5_proxy = 5 * Second"
    by (simp_all add: S2_pump_def S2_client_def idle_server_def S5_proxy_def)
  from rejected_query_reply[OF hdr up srv op r1 S2_read_namespace S2_read_counts S2_read_document S2_unmarshal users_not_bypass ne users_split S2_reject]
  show ?thesis unfolding acc ev using fit by (auto simp: ev)
qed

lemma write_parts_free:
  "wr_room c = None \<Longrightarrow>
   write_parts c parts k = ((k + length (concat parts), None), c\<lparr>events := events c @ map Wrote parts\<rparr>)"
proof (induction parts arbitrary: c k)
  case Nil then show ?case by simp
next
  case (Cons b parts)
  have w: "Write c b = ((length b, None), c\<lparr>events := events c @ [Wrote b]\<rparr>)"
    using Cons.prems by (simp add: Write_def)
  have "wr_room (c\<lparr>events := events c @ [Wrote b]\<rparr>) = None" using Cons.prems by simp
  from Cons.IH[OF this, of "k + length b"] w show ?case by (simp add: add.assoc)
qed

lemma sendErrorToClient_free:
  "wr_room c = None \<Longrightarrow>
   sendErrorToClient w h c err code =
     (None, c\<lparr>events := events c @
        [Wrote (ToWire \<lparr>MessageLength = of_nat (headerLen + length errorBytes + length (Marshal w (errorDoc_of err code))),
                        RequestID = RequestID h, ResponseTo = RequestID h, OpCode = OpReply\<rparr>),
         Wrote errorBytes, Wrote (Marshal w (errorDoc_of err code))]\<rparr>)"
  by (simp add: sendErrorToClient_def Let_def write_parts_free)

text \<open>
  Claim C2. In the reply written for the rejected query of S2, the twenty bytes after the
  header are \<open>errorBytes\<close>; read as little-endian integers they give the response flags
  16777216, cursor id 0, starting-from 0 and number-returned 16777216.
\<close>

theorem synthetic_reply_prelude_byte_order:
  "fst (sendErrorToClient S_world S2_header (S2_reading\<lparr>rd := []\<rparr>) (rejectionError ''users'') 17357) = None
   \<and> drop 16 (written_bytes (events (snd (sendErrorToClient S_world S2_header (S2_reading\<lparr>rd := []\<rparr>)
                                            (rejectionError ''users'') 17357))))
       = errorBytes @ [5, 0, 0, 0, 0]
   \<and> getInt32 errorBytes 0 = 16777216
   \<and> getInt64 errorBytes 4 = 0
   \<and> getInt32 errorBytes 12 = 0
   \<and> getInt32 errorBytes 16 = 16777216"
proof -
  have r: "wr_room (S2_reading\<lparr>rd := []\<rparr>) = None" by (simp add: S2_reading_def S2_client_def)
  have a: "fst (sendErrorToClient S_world S2_header (S2_reading\<lparr>rd := []\<rparr>) (rejectionError ''users'') 17357) = None"
    by (simp add: sendErrorToClient_free[OF r])
  have b: "drop 16 (written_bytes (events (snd (sendErrorToClient S_world S2_header (S2_reading\<lparr>rd := []\<rparr>)
                                            (rejectionError ''users'') 17357))))
       = errorBytes @ [5, 0, 0, 0, 0]"
    unfolding sendErrorToClient_free[OF r]
    by (simp add: written_bytes_append length_ToWire S2_reading_def S2_client_def S_world_def)
  have c: "getInt32 errorBytes 0 = 16777216" by (simp add: getInt32_def errorBytes_def)
  have d: "getInt64 errorBytes 4 = 0" by (simp add: getInt64_def getInt32_def errorBytes_def)
  have e: "getInt32 errorBytes 12 = 0" by (simp add: getInt32_def errorBytes_def)
  have f: "getInt32 errorBytes 16 = 16777216" by (simp add: getInt32_def errorBytes_def)
  from a b c d e f show ?thesis by blast
qed

text \<open>The rejected query of scenario S2 followed by a field selector, pass by pass.\<close>

lemma ToWire_FromWire_selector: "ToWire (FromWire S2_selector) = S2_selector"
  by (simp add: ToWire_def FromWire_def S2_selector_def setInt32_def getInt32_def)

lemma selector_header:
  "MessageLength (FromWire S2_selector) = 16" "OpCode (FromWire S2_selector) = 0"
  by (simp_all add: FromWire_def S2_selector_def getInt32_def)

lemma S2_selector_readHeader:
  "clientReadHeader S5_proxy (client S2_selector_pump) =
     (Inr S2_selector_header,
      S2_client\<lparr>events := [SetReadDeadline (60 * Second)],
                rd := query_body ''app.users'' S2_doc @ S2_selector\<rparr>)"
proof -
  let ?c = "S2_client\<lparr>events := events S2_client @ [SetReadDeadline (clientIdleTimeout S5_proxy)]\<rparr>"
  have "ReadFull (?c\<lparr>rd := ToWire S2_selector_header @ query_body ''app.users'' S2_doc @ S2_selector\<rparr>) headerLen =
          (Inr (ToWire S2_selector_header), ?c\<lparr>rd := query_body ''app.users'' S2_doc @ S2_selector\<rparr>)"
    by (rule ReadFull_prefix) (simp add: length_ToWire headerLen_def)
  then show ?thesis
    by (simp add: clientReadHeader_def readHeader_def Let_def FromWire_ToWire_only S2_client_def
        S5_proxy_def S2_selector_pump_def)
qed

lemma S2_selector_reads:
  "ReadFull (S2_reading\<lparr>rd := query_body ''app.users'' S2_doc @ S2_selector\<rparr>) 4 =
     (Inr [0, 0, 0, 0],
      S2_reading\<lparr>rd := bytes_of ''app.users'' @ [0] @ [0, 0, 0, 0, 0, 0, 0, 0] @ S2_doc @ S2_selector\<rparr>)"
  "readCString (S2_reading\<lparr>rd := bytes_of ''app.users'' @ [0] @ [0, 0, 0, 0, 0, 0, 0, 0] @ S2_doc @ S2_selector\<rparr>)
     = (Inr (bytes_of ''app.users'' @ [0]), S2_reading\<lparr>rd := [0, 0, 0, 0, 0, 0, 0, 0] @ S2_doc @ S2_selector\<rparr>)"
  "ReadFull (S2_reading\<lparr>rd := [0, 0, 0, 0, 0, 0, 0, 0] @ S2_doc @ S2_selector\<rparr>) 8
     = (Inr [0, 0, 0, 0, 0, 0, 0, 0], S2_reading\<lparr>rd := S2_doc @ S2_selector\<rparr>)"
  "readDocument (S2_reading\<lparr>rd := S2_doc @ S2_selector\<rparr>) = (Inr S2_doc, S2_reading\<lparr>rd := S2_selector\<rparr>)"
     apply (simp add: ReadFull_def query_body_def)
    apply (simp add: readCString_def bytes_of_def)
   apply (simp add: ReadFull_def)
  apply (simp add: readDocument_def ReadFull_def S2_doc_def getInt32_def Let_def)
  done

lemma S2_selector_pass1:
  "pump_iteration S_world S5_proxy S2_selector_pump =
     Continue \<lparr>client = S2_selector_replied, upstream = Some S6_server, dropped = [], dials = 1,
               ctl = []\<rparr>"
proof -
  have ne: "length [(''name'', String ''x'')] > 0" by simp
  have room: "wr_room (S2_reading\<lparr>rd := S2_selector\<rparr>) = None"
    by (simp add: S2_reading_def S2_client_def)
  have hq: "handleQueryRequest S_world S5_proxy S2_selector_header
              (S2_reading\<lparr>rd := query_body ''app.users'' S2_doc @ S2_selector\<rparr>) S6_server [] =
            (case sendErrorToClient S_world S2_selector_header (S2_reading\<lparr>rd := S2_selector\<rparr>) (rejectionError ''users'') 17357 of
              (e, c5) \<Rightarrow> (Inr e, c5, S6_server, []))"
    by (rule handleQueryRequest_reject[OF S2_selector_reads S2_unmarshal users_not_bypass ne users_split S2_reject])
  have hm: "handleMessage S_world S5_proxy S2_selector_header
              (S2_client\<lparr>events := [SetReadDeadline (60 * Second)],
                rd := query_body ''app.users'' S2_doc @ S2_selector\<rparr>) idle_server [] =
            handleQueryRequest S_world S5_proxy S2_selector_header
              (S2_reading\<lparr>rd := query_body ''app.users'' S2_doc @ S2_selector\<rparr>) S6_server []"
    by (simp add: handleMessage_def Let_def S2_selector_header_def S2_reading_def S6_server_def S5_proxy_def
        idle_server_def S2_client_def)
  show ?thesis
    unfolding pump_iteration_def S2_selector_readHeader
    apply (simp add: S2_selector_pump_def)
    apply (simp only: hm[unfolded hq sendErrorToClient_free[OF room]])
    apply (simp add: S2_selector_pump_def S2_selector_replied_def S2_reading_def S2_selector_header_def
        S2_client_def)
    done
qed

lemma S2_selector_pass2:
  "pump_iteration S_world S5_proxy
     \<lparr>client = S2_selector_replied, upstream = Some S6_server, dropped = [], dials = 1, ctl = []\<rparr> =
   Continue
     \<lparr>client = S2_selector_replied\<lparr>rd := [],
                 events := events S2_selector_replied @ [SetReadDeadline (60 * Second), SetDeadline (5 * Second)]\<rparr>,
      upstream = Some (S6_server\<lparr>events := [SetDeadline (5 * Second), SetDeadline (5 * Second), Wrote S2_selector]\<rparr>),
      dropped = [], dials = 1, ctl = []\<rparr>"
proof -
  let ?c = "S2_selector_replied\<lparr>events := events S2_selector_replied @ [SetReadDeadline (clientIdleTimeout S5_proxy)]\<rparr>"
  have rdc: "?c = ?c\<lparr>rd := S2_selector @ []\<rparr>" by (simp add: S2_selector_replied_def)
  have "ReadFull (?c\<lparr>rd := S2_selector @ []\<rparr>) headerLen = (Inr S2_selector, ?c\<lparr>rd := []\<rparr>)"
    by (rule ReadFull_prefix) (simp add: S2_selector_def headerLen_def)
  with rdc have rf: "ReadFull ?c headerLen = (Inr S2_selector, ?c\<lparr>rd := []\<rparr>)" by simp
  have hdr: "clientReadHeader S5_proxy S2_selector_replied = (Inr (FromWire S2_selector), ?c\<lparr>rd := []\<rparr>)"
    by (simp add: clientReadHeader_def readHeader_def Let_def rf)
  have hm: "handleMessage S_world S5_proxy (FromWire S2_selector) (?c\<lparr>rd := []\<rparr>) S6_server [] =
     (Inr None, ?c\<lparr>rd := [], events := events ?c @ [SetDeadline (5 * Second)]\<rparr>,
      S6_server\<lparr>events := [SetDeadline (5 * Second), SetDeadline (5 * Second), Wrote S2_selector]\<rparr>, [])"
    by (simp add: handleMessage_def Let_def WriteTo_def Write_def ToWire_FromWire_selector
        selector_header CopyN_def headerLen_def S6_server_def idle_server_def S5_proxy_def
        OpQuery_def OpGetMore_def HasResponse_def)
  show ?thesis
    unfolding pump_iteration_def
    by (simp add: hdr hm) (simp add: S5_proxy_def)
qed

text \<open>
  Claim C5. Scenario S2 with a field selector. The rejecting branch returns right after the
  reply is written, while the forwarding branch goes on to copy the rest of the message
  (\<^verbatim>\<open>io.CopyN(server, client, pending)\<close>). So after the first pass of the pump the client has
  its reply with code 17357 and nothing is written upstream, but the sixteen bytes of the
  selector, which belong to the rejected message, are still to be read; the second pass
  reads them as the header of a message of opcode 0 and length 16 and writes them to the
  server.
\<close>

theorem rejected_query_tail_sent_upstream:
  "rd (client S2_selector_pump) = ToWire S2_selector_header @ query_body ''app.users'' S2_doc @ S2_selector
   \<and> unat (MessageLength S2_selector_header) = length (rd (client S2_selector_pump))
   \<and> (\<exists>st1. pump_passes 1 S_world S5_proxy S2_selector_pump = Continue st1
          \<and> client_bytes st1 = errorReply S_world S2_selector_header (rejectionError ''users'') 17357
          \<and> upstream_bytes st1 = []
          \<and> rd (client st1) = S2_selector)
   \<and> (\<exists>st2. pump_passes 2 S_world S5_proxy S2_selector_pump = Continue st2
          \<and> client_bytes st2 = errorReply S_world S2_selector_header (rejectionError ''users'') 17357
          \<and> upstream_bytes st2 = S2_selector
          \<and> rd (client st2) = [])"
proof -
  have p1: "pump_iteration S_world S5_proxy S2_selector_pump =
     Continue \<lparr>client = S2_selector_replied, upstream = Some S6_server, dropped = [], dials = 1, ctl = []\<rparr>"
    by (rule S2_selector_pass1)
  have a: "rd (client S2_selector_pump) = ToWire S2_selector_header @ query_body ''app.users'' S2_doc @ S2_selector"
    by (simp add: S2_selector_pump_def)
  have b: "unat (MessageLength S2_selector_header) = length (rd (client S2_selector_pump))"
    by (simp add: S2_selector_pump_def S2_selector_header_def length_ToWire query_body_def bytes_of_def
        S2_doc_def S2_selector_def)
  have reply: "written_bytes (events S2_selector_replied) =
                 errorReply S_world S2_selector_header (rejectionError ''users'') 17357"
    by (simp add: S2_selector_replied_def errorReply_def S2_selector_header_def)
  have c: "\<exists>st1. pump_passes 1 S_world S5_proxy S2_selector_pump = Continue st1
          \<and> client_bytes st1 = errorReply S_world S2_selector_header (rejectionError ''users'') 17357
          \<and> upstream_bytes st1 = []
          \<and> rd (client st1) = S2_selector"
    by (simp add: p1 client_bytes_def upstream_bytes_def reply S6_server_def idle_server_def)
       (simp add: S2_selector_replied_def)
  have two: "pump_passes 2 S_world S5_proxy S2_selector_pump =
      pump_passes 1 S_world S5_proxy
        \<lparr>client = S2_selector_replied, upstream = Some S6_server, dropped = [], dials = 1, ctl = []\<rparr>"
    by (simp add: p1 eval_nat_numeral)
  have d: "\<exists>st2. pump_passes 2 S_world S5_proxy S2_selector_pump = Continue st2
          \<and> client_bytes st2 = errorReply S_world S2_selector_header (rejectionError ''users'') 17357
          \<and> upstream_bytes st2 = S2_selector
          \<and> rd (client st2) = []"
    unfolding two
    by (simp add: S2_selector_pass2[unfolded One_nat_def] client_bytes_def upstream_bytes_def reply
        written_bytes_append)
  from a b c d show ?thesis by blast
qed

lemma write_parts_events:
  "write_parts c parts k = ((n, e), c') \<Longrightarrow>
     \<exists>ws. events c' = events c @ map Wrote ws \<and> concat ws = accepted c (concat parts)"
proof (induction parts arbitrary: c k)
  case Nil
  then have "events c' = events c @ map Wrote []" "concat [] = accepted c (concat [])"
    by (auto simp: accepted_def split: option.splits)
  then show ?case by blast
next
  case (Cons b parts)
  obtain m e1 c1 where w: "Write c b = ((m, e1), c1)" by (metis prod.exhaust)
  note W = Write_effect[OF w]
  have ev1: "events c1 = events c @ [Wrote (accepted c b)]"
    using w by (auto simp: Write_def accepted_def split: option.splits if_splits)
  show ?case
  proof (cases e1)
    case (Some err)
    with w Cons.prems have res: "c' = c1" by auto
    from Some W(2) have nf: "\<not> fits c b" by simp
    then obtain r where r: "wr_room c = Some r" "r < length b"
      by (auto simp: fits_def split: option.splits)
    then have "accepted c (concat (b # parts)) = accepted c b"
      by (simp add: accepted_def)
    then have "events c' = events c @ map Wrote [accepted c b]"
      "concat [accepted c b] = accepted c (concat (b # parts))"
      using res ev1 by simp_all
    then show ?thesis by blast
  next
    case None
    with w Cons.prems have rec: "write_parts c1 parts (k + m) = ((n, e), c')" by simp
    from Cons.IH[OF rec] obtain ws where ws: "events c' = events c1 @ map Wrote ws"
      "concat ws = accepted c1 (concat parts)" by blast
    from None W(2) have f: "fits c b" by simp
    from None W(3) have room: "wr_room c1 = (case wr_room c of None \<Rightarrow> None | Some r \<Rightarrow> Some (r - length b))" by simp
    have acc: "accepted c b @ accepted c1 (concat parts) = accepted c (concat (b # parts))"
      using f room by (auto simp: accepted_def fits_def split: option.splits)
    have "events c' = events c @ map Wrote (accepted c b # ws)"
      "concat (accepted c b # ws) = accepted c (concat (b # parts))"
      using ws ev1 acc by simp_all
    then show ?thesis by blast
  qed
qed

lemma sendErrorToClient_events:
  assumes "sendErrorToClient w h c err code = (e, c')"
  shows "\<exists>ws. events c' = events c @ map Wrote ws \<and> concat ws = accepted c (errorReply w h err code)"
proof -
  let ?doc = "Marshal w (errorDoc_of err code)"
  let ?hdr = "\<lparr>MessageLength = of_nat (headerLen + length errorBytes + length ?doc),
             RequestID = RequestID h, ResponseTo = RequestID h, OpCode = OpReply\<rparr>"
  obtain n where wp: "write_parts c [ToWire ?hdr, errorBytes, ?doc] 0 = ((n, e), c')"
    using assms by (auto simp: sendErrorToClient_def Let_def split: prod.splits)
  have cc: "concat [ToWire ?hdr, errorBytes, ?doc] = errorReply w h err code"
    by (simp add: errorReply_def)
  from write_parts_events[OF wp, unfolded cc] show ?thesis .
qed

lemma forwardQuery_response_failure:
  assumes "write_parts srv parts 0 = ((written, None), s1)"
      and "CopyN s1 cli (sint (MessageLength h) - int written) = (None, s2, c2)"
      and "copyMessage c2 s2 = (Some err, c3, s3)"
  shows "forwardQuery w p h cli srv parts q queryID ns cl =
           (case reactor w p h c3 err q queryID ns cl of
              (c4, cl') \<Rightarrow> (Inr (Some err), c4, s3, cl'))"
  using assms by (simp add: forwardQuery_def Let_def)

lemma reactor_effect:
  "\<exists>f ops bcerr c4.
      FindInprog (backChannel p) f = (ops, bcerr)
      \<and> reactor w p h c3 err q queryID ns cl = (c4, cl @ Find f # (if bcerr = None then map Kill ops else []))
      \<and> (if bcerr = None
          then \<exists>ws. events c4 =
                       events c3
                         @ (case RemoteAddr c3 of Some a \<Rightarrow> [SetDeadline (messageTimeout p)] | None \<Rightarrow> [])
                         @ map Wrote ws
                     \<and> concat ws =
                         accepted c3
                           (errorReply w h (if is_timeout err then timeoutError w p else killedError err)
                                           (if is_timeout err then 50 else 14044))
          else c4 = c3)"
proof -
  let ?f0 = "[''op'' \<mapsto> String ''query'', ''ns'' \<mapsto> String ns]"
  let ?f = "if queryID = ''''
               then flattenQuery (D q) [''query'']
                      (?f0(''secs_running'' \<mapsto> D [(''$gte'', Float64 (Floor_Seconds_minus_1 w (elapsed w)))]))
               else ?f0(''query.$queryGuard.track'' \<mapsto> String queryID)"
  obtain ops bcerr where fi: "FindInprog (backChannel p) ?f = (ops, bcerr)" by (metis prod.exhaust)
  show ?thesis
  proof (cases bcerr)
    case (Some e)
    have "reactor w p h c3 err q queryID ns cl = (c3, cl @ [Find ?f])"
      using fi Some by (simp add: reactor_def Let_def)
    with fi Some show ?thesis by auto
  next
    case None
    let ?c1 = "case RemoteAddr c3 of
                 Some a \<Rightarrow> c3\<lparr>events := events c3 @ [SetDeadline (messageTimeout p)]\<rparr>
               | None \<Rightarrow> c3"
    let ?E = "if is_timeout err then timeoutError w p else killedError err"
    let ?code = "if is_timeout err then 50 else 14044 :: int"
    obtain e c4 where se: "sendErrorToClient w h ?c1 ?E ?code = (e, c4)" by (metis prod.exhaust)
    have r: "reactor w p h c3 err q queryID ns cl = (c4, cl @ [Find ?f] @ map Kill ops)"
      using fi None se
      by (cases "is_timeout err") (simp_all add: reactor_def Let_def timeoutError_def killedError_def)
    from sendErrorToClient_events[OF se] obtain ws where
      ws: "events c4 = events ?c1 @ map Wrote ws" "concat ws = accepted ?c1 (errorReply w h ?E ?code)"
      by blast
    have ev: "events ?c1 = events c3 @ (case RemoteAddr c3 of Some a \<Rightarrow> [SetDeadline (messageTimeout p)] | None \<Rightarrow> [])"
      by (simp split: option.splits)
    have ac: "accepted ?c1 (errorReply w h ?E ?code) = accepted c3 (errorReply w h ?E ?code)"
      by (simp add: accepted_def split: option.splits)
    have "\<exists>ws. events c4 =
                       events c3
                         @ (case RemoteAddr c3 of Some a \<Rightarrow> [SetDeadline (messageTimeout p)] | None \<Rightarrow> [])
                         @ map Wrote ws
                     \<and> concat ws = accepted c3 (errorReply w h ?E ?code)"
      using ws ev ac by auto
    with fi None r show ?thesis by auto
  qed
qed

text \<open>
  With the outer \<^verbatim>\<open>queryID\<close> empty the filter of the lookup always carries \<open>secs_running\<close>:
  the flattened query only writes keys that begin like \<open>query\<close>.
\<close>

lemma Join_head:
  "name \<noteq> [] \<Longrightarrow> hd name \<noteq> [] \<Longrightarrow> Join name sep \<noteq> [] \<and> hd (Join name sep) = hd (hd name)"
  by (induction name sep rule: Join.induct) auto

lemma flattenQuery_other_keys:
  "name \<noteq> [] \<Longrightarrow> hd name \<noteq> [] \<Longrightarrow> k = [] \<or> hd k \<noteq> hd (hd name) \<Longrightarrow>
   flattenQuery d name r k = r k"
proof (induction d name r rule: flattenQuery.induct)
  case (1 m name result)
  have "\<And>r. set ms \<subseteq> set m \<Longrightarrow>
          foldl (\<lambda>r td. flattenQuery (Value td) (name @ [Name td]) r) r ms k = r k" for ms
  proof (induction ms)
    case Nil then show ?case by simp
  next
    case (Cons td ms)
    have td: "td \<in> set m" using Cons.prems by simp
    have "flattenQuery (Value td) (name @ [Name td]) r k = r k"
      using "1.IH"[OF td, of r] "1.prems" by simp
    moreover have "foldl (\<lambda>r td. flattenQuery (Value td) (name @ [Name td]) r)
                     (flattenQuery (Value td) (name @ [Name td]) r) ms k
                   = flattenQuery (Value td) (name @ [Name td]) r k"
      using Cons.IH[of "flattenQuery (Value td) (name @ [Name td]) r"] Cons.prems by simp
    ultimately show ?case by simp
  qed
  then show ?case by simp
qed (use Join_head in \<open>auto simp: fun_upd_def\<close>)

lemma reactor_untagged_filter:
  "\<exists>f rest c'. reactor w p h c err q [] ns cl = (c', cl @ Find f # rest)
      \<and> f ''secs_running'' = Some (D [(''$gte'', Float64 (Floor_Seconds_minus_1 w (elapsed w)))])"
proof -
  let ?f = "flattenQuery (D q) [''query'']
              ([''op'' \<mapsto> String ''query'', ''ns'' \<mapsto> String ns]
                (''secs_running'' \<mapsto> D [(''$gte'', Float64 (Floor_Seconds_minus_1 w (elapsed w)))]))"
  have k: "?f ''secs_running'' = Some (D [(''$gte'', Float64 (Floor_Seconds_minus_1 w (elapsed w)))])"
    by (subst flattenQuery_other_keys) simp_all
  obtain ops bcerr where fi: "FindInprog (backChannel p) ?f = (ops, bcerr)" by (metis prod.exhaust)
  have "\<exists>rest c'. reactor w p h c err q [] ns cl = (c', cl @ Find ?f # rest)"
    using fi by (cases bcerr) (auto simp: reactor_def Let_def split: prod.splits simp del: flattenQuery.simps)
  with k show ?thesis by blast
qed

text \<open>
  Claim C6, amended. When a query has been forwarded and the copy of the response fails, the
  handler returns that error and looks the operation up on the control channel. If the lookup
  succeeds, every operation found is killed, the client's deadline is set again (for a
  \<^verbatim>\<open>net.Conn\<close>), and then the bytes of one synthetic reply are written to the client: code 50
  with the message naming the message timeout if the failure was a timeout, code 14044 with
  the text of the error otherwise. If the lookup fails, nothing is done to the client.
\<close>

theorem response_failure_reply:
  assumes wp: "write_parts srv parts 0 = ((written, None), s1)"
      and cp: "CopyN s1 cli (sint (MessageLength h) - int written) = (None, s2, c2)"
      and cm: "copyMessage c2 s2 = (Some err, c3, s3)"
  shows "\<exists>f ops bcerr c4.
      FindInprog (backChannel p) f = (ops, bcerr)
      \<and> forwardQuery w p h cli srv parts q queryID ns cl =
          (Inr (Some err), c4, s3, cl @ Find f # (if bcerr = None then map Kill ops else []))
      \<and> (if bcerr = None
          then \<exists>ws. events c4 =
                       events c3
                         @ (case RemoteAddr c3 of Some a \<Rightarrow> [SetDeadline (messageTimeout p)] | None \<Rightarrow> [])
                         @ map Wrote ws
                     \<and> concat ws =
                         accepted c3
                           (errorReply w h (if is_timeout err then timeoutError w p else killedError err)
                                           (if is_timeout err then 50 else 14044))
          else c4 = c3)"
proof -
  from reactor_effect[of p w h c3 err q queryID ns cl]
  obtain f ops bcerr c4 where
    a: "FindInprog (backChannel p) f = (ops, bcerr)" and
    b: "reactor w p h c3 err q queryID ns cl = (c4, cl @ Find f # (if bcerr = None then map Kill ops else []))" and
    c: "if bcerr = None
          then \<exists>ws. events c4 =
                       events c3
                         @ (case RemoteAddr c3 of Some a \<Rightarrow> [SetDeadline (messageTimeout p)] | None \<Rightarrow> [])
                         @ map Wrote ws
                     \<and> concat ws =
                         accepted c3
                           (errorReply w h (if is_timeout err then timeoutError w p else killedError err)
                                           (if is_timeout err then 50 else 14044))
          else c4 = c3"
    by blast
  have "forwardQuery w p h cli srv parts q queryID ns cl =
          (Inr (Some err), c4, s3, cl @ Find f # (if bcerr = None then map Kill ops else []))"
    using forwardQuery_response_failure[OF wp cp cm, of w p q queryID ns cl] b by simp
  with a c show ?thesis by blast
qed

lemma S6_read_flags: "ReadFull S6_client 4 = (Inr [0, 0, 0, 0], S6_client\<lparr>rd := bytes_of ''app.users'' @ [0] @ [0, 0, 0, 0, 0, 0, 0, 0] @ S1_doc\<rparr>)"
  by (simp add: ReadFull_def S6_client_def query_body_def)

lemma S6_read_namespace: "readCString (S6_client\<lparr>rd := bytes_of ''app.users'' @ [0] @ [0, 0, 0, 0, 0, 0, 0, 0] @ S1_doc\<rparr>)
   = (Inr (bytes_of ''app.users'' @ [0]), S6_client\<lparr>rd := [0, 0, 0, 0, 0, 0, 0, 0] @ S1_doc\<rparr>)"
  by (simp add: readCString_def bytes_of_def)

lemma S6_read_counts: "ReadFull (S6_client\<lparr>rd := [0, 0, 0, 0, 0, 0, 0, 0] @ S1_doc\<rparr>) 8
   = (Inr [0, 0, 0, 0, 0, 0, 0, 0], S6_client\<lparr>rd := S1_doc\<rparr>)"
  by (simp add: ReadFull_def)

lemma S6_read_document: "readDocument (S6_client\<lparr>rd := S1_doc\<rparr>) = (Inr S1_doc, S6_client\<lparr>rd := []\<rparr>)"
  by (simp add: readDocument_def ReadFull_def S1_doc_def getInt32_def Let_def)

lemma S6_unmarshal: "Unmarshal S_world S1_doc = Inr [(''email'', String ''a@b'')]"
  by (simp add: S_world_def)

lemma S6_mutate:
  "mutateQuery w p [(''email'', String ''a@b'')] a i =
     Inr [(''$query'', D [(''email'', String ''a@b'')]), (''$maxTimeMS'', Float64 (maxTimeMS_of p)), queryGuard a i]"
  by (rule mutateQuery_bare) simp

lemma lost_cap: "maxTimeMS_of lost_inprog_proxy = Finite 4000"
  by (simp add: maxTimeMS_of_def lost_inprog_proxy_def S5_proxy_def Second_def Millisecond_def wrap64_def signed_divide_int_def)

lemma lost_admit: "checkForIndex S_world lost_inprog_proxy ''app'' ''users'' [(''email'', String ''a@b'')] = Inr True"
  by (simp add: checkForIndex_def lost_inprog_proxy_def S5_proxy_def firstIndexableField_def
      TrimLeft_def Trim_def TrimRight_def)

lemma S6_forward:
  assumes cap: "maxTimeMS_of p = Finite 4000"
      and adm: "checkForIndex S_world p ''app'' ''users'' [(''email'', String ''a@b'')] = Inr True"
  shows "handleQueryRequest S_world p S6_header S6_client S6_server [] =
     forwardQuery S_world p (S6_header\<lparr>MessageLength := 43\<rparr>) (S6_client\<lparr>rd := []\<rparr>) S6_server
       S6_parts S6_mutated [] ''app.users'' []"
proof -
  have ne: "length [(''email'', String ''a@b'')] > 0" by simp
  have ra: "(case RemoteAddr S6_client of Some a \<Rightarrow> a | None \<Rightarrow> ''unknown'') = ''10.0.0.7:5123''"
    by (simp add: S6_client_def)
  have mu: "mutateQuery S_world p [(''email'', String ''a@b'')]
              (case RemoteAddr S6_client of Some a \<Rightarrow> a | None \<Rightarrow> ''unknown'') (uuid_New S_world) = Inr S6_mutated"
    unfolding ra by (simp add: S6_mutate cap S6_mutated_def queryGuard_def S_world_def)
  have ml: "MessageLength S6_header - of_nat (length S1_doc) + of_nat (length [5, 0, 0, 0, 0 :: byte]) = 43"
    by (simp add: S6_header_def S1_doc_def)
  have ns: "string_of (butlast (bytes_of ''app.users'' @ [0])) = ''app.users''"
    by (simp add: string_of_def bytes_of_def char_of_byte_def)
  have md: "Marshal S_world S6_mutated = [5, 0, 0, 0, 0]" by (simp add: S_world_def)
  show ?thesis
    using handleQueryRequest_admit[OF S6_read_flags S6_read_namespace S6_read_counts S6_read_document S6_unmarshal users_not_bypass ne users_split adm mu,
        of S6_header S6_server "[]"]
    unfolding md ns ml S6_parts_def .
qed

lemma S6_sent:
  "write_parts S6_server S6_parts 0 = ((43, None), S6_server\<lparr>events := events S6_server @ map Wrote S6_parts\<rparr>)"
proof -
  have r: "wr_room S6_server = None" by (simp add: S6_server_def idle_server_def)
  have l: "length (concat S6_parts) = 43" by (simp add: S6_parts_def length_ToWire bytes_of_def)
  show ?thesis using write_parts_free[OF r, of S6_parts 0] l by simp
qed

lemma S6_pending:
  "CopyN (S6_server\<lparr>events := events S6_server @ map Wrote S6_parts\<rparr>) (S6_client\<lparr>rd := []\<rparr>)
         (sint (MessageLength (S6_header\<lparr>MessageLength := 43\<rparr>)) - int 43)
     = (None, S6_server\<lparr>events := events S6_server @ map Wrote S6_parts\<rparr>, S6_client\<lparr>rd := []\<rparr>)"
  by (simp add: CopyN_def)

lemma S6_no_response:
  "copyMessage (S6_client\<lparr>rd := []\<rparr>) (S6_server\<lparr>events := events S6_server @ map Wrote S6_parts\<rparr>)
     = (Some (NetError True ''i/o timeout''), S6_client\<lparr>rd := []\<rparr>,
        S6_server\<lparr>events := events S6_server @ map Wrote S6_parts\<rparr>)"
  by (simp add: copyMessage_def readHeader_def ReadFull_def headerLen_def S6_server_def idle_server_def)

lemma S6_flatten:
  "flattenQuery (D S6_mutated) [''query''] f =
     f(''query.$query.email'' \<mapsto> String ''a@b'',
       ''query.$maxTimeMS'' \<mapsto> Float64 (Finite 4000),
       ''query.$queryGuard.remoteaddr'' \<mapsto> String ''10.0.0.7:5123'',
       ''query.$queryGuard.track'' \<mapsto> String ''Q1'')"
  by (simp add: S6_mutated_def)

text \<open>
  Claim C1. Scenario S6: the tagged query is forwarded and the server does not answer. The
  filter of the lookup is the fingerprint of the untagged path: \<open>secs_running\<close> and every
  leaf of the mutated query, the tracking id among them.
\<close>

theorem tagged_query_filter_is_brute_force:
  "snd (snd (snd (handleQueryRequest S_world S5_proxy S6_header S6_client S6_server []))) =
     [Find [''op'' \<mapsto> String ''query'', ''ns'' \<mapsto> String ''app.users'',
            ''secs_running'' \<mapsto> D [(''$gte'', Float64 (Finite 4))],
            ''query.$query.email'' \<mapsto> String ''a@b'',
            ''query.$maxTimeMS'' \<mapsto> Float64 (Finite 4000),
            ''query.$queryGuard.remoteaddr'' \<mapsto> String ''10.0.0.7:5123'',
            ''query.$queryGuard.track'' \<mapsto> String ''Q1''],
      Kill (Int32 42)]"
proof -
  have fw: "handleQueryRequest S_world S5_proxy S6_header S6_client S6_server [] =
     (case reactor S_world S5_proxy (S6_header\<lparr>MessageLength := 43\<rparr>) (S6_client\<lparr>rd := []\<rparr>)
             (NetError True ''i/o timeout'') S6_mutated [] ''app.users'' [] of
        (c4, cl') \<Rightarrow> (Inr (Some (NetError True ''i/o timeout'')), c4,
                      S6_server\<lparr>events := events S6_server @ map Wrote S6_parts\<rparr>, cl'))"
    unfolding S6_forward[OF S5_cap S1_admit]
    by (rule forwardQuery_response_failure[OF S6_sent S6_pending S6_no_response])
  have fl: "Floor_Seconds_minus_1 S_world (elapsed S_world) = Finite 4"
    by (simp add: S_world_def Second_def)
  have fi: "FindInprog (backChannel S5_proxy) = (\<lambda>f. ([Int32 42], None))"
    by (simp add: S5_proxy_def)
  show ?thesis
    unfolding fw
    by (simp add: reactor_def Let_def S6_flatten fl fi del: flattenQuery.simps split: prod.splits)
qed

text \<open>Scenario S6: after the timeout the client's deadline is set again and the reply with
  code 50 is written.\<close>

theorem response_failure_reply_witness:
  "\<exists>f ops bcerr c4.
      FindInprog (backChannel S5_proxy) f = (ops, bcerr)
      \<and> forwardQuery S_world S5_proxy (S6_header\<lparr>MessageLength := 43\<rparr>) (S6_client\<lparr>rd := []\<rparr>) S6_server
            S6_parts S6_mutated [] ''app.users'' [] =
          (Inr (Some (NetError True ''i/o timeout'')), c4,
           S6_server\<lparr>events := events S6_server @ map Wrote S6_parts\<rparr>,
           [] @ Find f # (if bcerr = None then map Kill ops else []))
      \<and> (\<exists>ws. events c4 =
                 [SetReadDeadline (60 * Second), SetDeadline (5 * Second), SetDeadline (5 * Second)]
                   @ map Wrote ws
               \<and> concat ws =
                   errorReply S_world (S6_header\<lparr>MessageLength := 43\<rparr>) (timeoutError S_world S5_proxy) 50)"
proof -
  from response_failure_reply[OF S6_sent S6_pending S6_no_response,
      of S5_proxy S_world S6_mutated "[]" "''app.users''" "[]"]
  obtain f ops bcerr c4 where
    a: "FindInprog (backChannel S5_proxy) f = (ops, bcerr)" and
    b: "forwardQuery S_world S5_proxy (S6_header\<lparr>MessageLength := 43\<rparr>) (S6_client\<lparr>rd := []\<rparr>) S6_server
            S6_parts S6_mutated [] ''app.users'' [] =
          (Inr (Some (NetError True ''i/o timeout'')), c4,
           S6_server\<lparr>events := events S6_server @ map Wrote S6_parts\<rparr>,
           [] @ Find f # (if bcerr = None then map Kill ops else []))" and
    c: "if bcerr = None
          then \<exists>ws. events c4 =
                       events (S6_client\<lparr>rd := []\<rparr>)
                         @ (case RemoteAddr (S6_client\<lparr>rd := []\<rparr>) of Some a \<Rightarrow> [SetDeadline (messageTimeout S5_proxy)] | None \<Rightarrow> [])
                         @ map Wrote ws
                     \<and> concat ws =
                         accepted (S6_client\<lparr>rd := []\<rparr>)
                           (errorReply S_world (S6_header\<lparr>MessageLength := 43\<rparr>)
                              (if is_timeout (NetError True ''i/o timeout'') then timeoutError S_world S5_proxy
                               else killedError (NetError True ''i/o timeout''))
                              (if is_timeout (NetError True ''i/o timeout'') then 50 else 14044))
          else c4 = S6_client\<lparr>rd := []\<rparr>"
    by blast
  from a have n: "bcerr = None" by (simp add: S5_proxy_def)
  have ev: "events (S6_client\<lparr>rd := []\<rparr>) = [SetReadDeadline (60 * Second), SetDeadline (5 * Second)]"
    "RemoteAddr (S6_client\<lparr>rd := []\<rparr>) = Some ''10.0.0.7:5123''"
    "messageTimeout S5_proxy = 5 * Second"
    "\<And>bs. accepted (S6_client\<lparr>rd := []\<rparr>) bs = bs"
    by (simp_all add: S6_client_def S5_proxy_def accepted_def)
  from c n have "\<exists>ws. events c4 =
                 [SetReadDeadline (60 * Second), SetDeadline (5 * Second), SetDeadline (5 * Second)]
                   @ map Wrote ws
               \<and> concat ws =
                   errorReply S_world (S6_header\<lparr>MessageLength := 43\<rparr>) (timeoutError S_world S5_proxy) 50"
    by (simp add: ev)
  with a b show ?thesis by blast
qed

text \<open>
  Claim C6 as stated fails when the lookup on the control channel fails: the query was
  forwarded, the response timed out, and nothing is written to the client.
\<close>

theorem response_failure_no_reply_counterexample:
  "fst (handleQueryRequest S_world lost_inprog_proxy S6_header S6_client S6_server [])
     = Inr (Some (NetError True ''i/o timeout''))
   \<and> written_bytes (events (fst (snd (snd (handleQueryRequest S_world lost_inprog_proxy S6_header
                                               S6_client S6_server [])))))
       = concat S6_parts
   \<and> written_bytes (events (fst (snd (handleQueryRequest S_world lost_inprog_proxy S6_header
                                          S6_client S6_server []))))
       = []"
proof -
  have fw: "handleQueryRequest S_world lost_inprog_proxy S6_header S6_client S6_server [] =
     (case reactor S_world lost_inprog_proxy (S6_header\<lparr>MessageLength := 43\<rparr>) (S6_client\<lparr>rd := []\<rparr>)
             (NetError True ''i/o timeout'') S6_mutated [] ''app.users'' [] of
        (c4, cl') \<Rightarrow> (Inr (Some (NetError True ''i/o timeout'')), c4,
                      S6_server\<lparr>events := events S6_server @ map Wrote S6_parts\<rparr>, cl'))"
    unfolding S6_forward[OF lost_cap lost_admit]
    by (rule forwardQuery_response_failure[OF S6_sent S6_pending S6_no_response])
  have fi: "FindInprog (backChannel lost_inprog_proxy) = (\<lambda>f. ([], Some (NetError False ''no reachable servers'')))"
    by (simp add: lost_inprog_proxy_def)
  have wb: "written_bytes (map Wrote S6_parts) = concat S6_parts"
    by (simp add: S6_parts_def)
  show ?thesis
    unfolding fw
    by (simp add: reactor_def Let_def fi wb written_bytes_append S6_server_def idle_server_def S6_client_def
        del: flattenQuery.simps)
qed

section \<open>Admission and forwarding\<close>

lemma Write_events: "Write c b = (r, c') \<Longrightarrow> events c' = events c @ [Wrote (accepted c b)]"
  by (auto simp: Write_def accepted_def split: option.splits if_splits)

lemma write_parts_first:
  assumes "write_parts c (b # parts) k = (r, c')"
  shows "\<exists>ws. events c' = events c @ Wrote (accepted c b) # map Wrote ws"
proof -
  obtain m e1 c1 where w: "Write c b = ((m, e1), c1)" by (metis prod.exhaust)
  note ev1 = Write_events[OF w]
  show ?thesis
  proof (cases e1)
    case (Some err)
    with w assms have "c' = c1" by auto
    with ev1 have "events c' = events c @ Wrote (accepted c b) # map Wrote []" by simp
    then show ?thesis by blast
  next
    case None
    obtain n e where r: "r = (n, e)" by (cases r)
    from None w assms r have "write_parts c1 parts (k + m) = ((n, e), c')" by simp
    from write_parts_events[OF this] obtain ws where "events c' = events c1 @ map Wrote ws" by blast
    with ev1 have "events c' = events c @ Wrote (accepted c b) # map Wrote ws" by simp
    then show ?thesis by blast
  qed
qed

lemma CopyN_events:
  "CopyN dst src n = (e, dst', src') \<Longrightarrow> (\<exists>es. events dst' = events dst @ es) \<and> events src' = events src"
  by (auto simp: CopyN_def Let_def Write_def split: if_splits prod.splits option.splits)

lemma copyMessage_src_events:
  assumes "copyMessage dst src = (e, dst', src')"
  shows "events src' = events src"
proof -
  obtain r1 s1 where rh: "readHeader src = (r1, s1)" by (metis prod.exhaust)
  from readHeader_keeps[OF rh] have k: "events s1 = events src" by (metis conn.select_convs(6) conn.surjective conn.update_convs(2))
  show ?thesis
  proof (cases r1)
    case (Inl err)
    with assms rh k show ?thesis by (simp add: copyMessage_def)
  next
    case (Inr h)
    obtain e2 d2 where wt: "WriteTo h dst = (e2, d2)" by (metis prod.exhaust)
    show ?thesis
    proof (cases e2)
      case (Some err)
      with assms rh Inr wt k show ?thesis by (simp add: copyMessage_def)
    next
      case None
      with assms rh Inr wt have "CopyN d2 s1 (sint (MessageLength h) - int headerLen) = (e, dst', src')"
        by (simp add: copyMessage_def)
      from CopyN_events[OF this] k show ?thesis by simp
    qed
  qed
qed

lemma forwardQuery_server:
  assumes fq: "forwardQuery w p h cli srv (b # parts) q qid ns cl = (r, c', s', cl')"
  shows "(\<exists>es. events s' = events srv @ Wrote (accepted srv b) # es)
       \<and> (\<exists>more. written_bytes (events s') =
                     written_bytes (events srv) @ accepted srv (concat (b # parts)) @ more)"
proof -
  obtain n e1 s1 where wp: "write_parts srv (b # parts) 0 = ((n, e1), s1)" by (metis prod.exhaust)
  from write_parts_first[OF wp] obtain ws where
    f: "events s1 = events srv @ Wrote (accepted srv b) # map Wrote ws" by blast
  from write_parts_effect[OF wp] have
    e: "written_bytes (events s1) = written_bytes (events srv) @ accepted srv (concat (b # parts))" by blast
  have "\<exists>es. events s' = events s1 @ es"
  proof (cases e1)
    case (Some err)
    with fq wp have "s' = s1" by (simp add: forwardQuery_def)
    then show ?thesis by simp
  next
    case None
    obtain e2 s2 c2 where cp: "CopyN s1 cli (sint (MessageLength h) - int n) = (e2, s2, c2)"
      by (metis prod.exhaust)
    from CopyN_events[OF cp] obtain es where es: "events s2 = events s1 @ es" by blast
    show ?thesis
    proof (cases e2)
      case (Some err)
      with fq wp None cp have "s' = s2" by (simp add: forwardQuery_def Let_def)
      with es show ?thesis by blast
    next
      case n2: None
      obtain e3 c3 s3 where cm: "copyMessage c2 s2 = (e3, c3, s3)" by (metis prod.exhaust)
      from fq wp None cp n2 cm have "s' = s3"
        by (cases e3) (auto simp: forwardQuery_def Let_def split: prod.splits)
      with copyMessage_src_events[OF cm] es show ?thesis by simp
    qed
  qed
  then obtain es where es: "events s' = events s1 @ es" ..
  have a: "events s' = events srv @ Wrote (accepted srv b) # (map Wrote ws @ es)"
    using es f by simp
  have b: "written_bytes (events s') =
             written_bytes (events srv) @ accepted srv (concat (b # parts)) @ written_bytes es"
    using es e by (simp add: written_bytes_append)
  from a b show ?thesis by blast
qed

lemma reads_keep:
  assumes r1: "ReadFull cli 4 = (Inr flags, c1)"
      and r2: "readCString c1 = (Inr ns, c2)"
      and r3: "ReadFull c2 8 = (Inr two, c3)"
      and r4: "readDocument c3 = (Inr queryDoc, c4)"
  shows "c4 = cli\<lparr>rd := rd c4\<rparr>"
  using ReadFull_keeps[OF r1] readCString_keeps[OF r2] ReadFull_keeps[OF r3] readDocument_keeps[OF r4]
  by (metis conn.surjective conn.update_convs(2))

text \<open>
  Claim C3, amended. For a query that is read and is not a bypass, on which the inspector
  returns and, when it admits, the mutator returns: the inspector admits if and only if the
  document count is 0 or some index has a first key that, with \<open>-\<close> stripped from both
  ends, is equal under \<^verbatim>\<open>strings.EqualFold\<close> to the first indexable field
  (\<open>amended_firstIndexableField\<close>: a query is wrapped only with more than one entry); the
  handler writes to the server exactly when the inspector admits; what it writes then starts
  with the re-created header, followed, as far as the server takes them, by the flags, the
  namespace, the two counts and the mutated document; and when the inspector rejects, the
  server and the control channel are left alone and the client is sent the reply with code
  17357.
\<close>

theorem query_forwarded_iff:
  assumes r1: "ReadFull cli 4 = (Inr flags, c1)"
      and r2: "readCString c1 = (Inr ns, c2)"
      and r3: "ReadFull c2 8 = (Inr two, c3)"
      and r4: "readDocument c3 = (Inr queryDoc, c4)"
      and um: "Unmarshal w queryDoc = Inr q"
      and nb: "\<not> (HasSuffix ns cmdCollectionSuffix \<or> HasSuffix ns indexCollectionSuffix
              \<or> Contains ns systemCollection)"
      and ne: "length q > 0"
      and sp: "splitDatabaseCollection (string_of (butlast ns)) = Inr (db, coll)"
      and chk: "checkForIndex w p db coll q = Inr b"
      and mut: "b \<Longrightarrow> \<exists>q'. mutateQuery w p q (case RemoteAddr cli of Some a \<Rightarrow> a | None \<Rightarrow> ''unknown'')
                                 (uuid_New w) = Inr q'"
      and res: "handleQueryRequest w p h cli srv cl = (r, cli', srv', cl')"
  shows "(b \<longleftrightarrow>
            fst (Count (backChannel p) db coll) = 0
            \<or> (\<exists>index\<in>set (fst (Indexes (backChannel p) db coll)). \<exists>k0 ks.
                  Key index = k0 # ks
                  \<and> EqualFold w (Trim k0 ''-'') (amended_firstIndexableField w q)))
       \<and> (srv' \<noteq> srv) = b
       \<and> (if b
          then \<exists>q' es more.
                 mutateQuery w p q (case RemoteAddr cli of Some a \<Rightarrow> a | None \<Rightarrow> ''unknown'')
                   (uuid_New w) = Inr q'
                 \<and> events srv' =
                     events srv
                       @ Wrote (accepted srv
                           (ToWire (h\<lparr>MessageLength :=
                               MessageLength h - of_nat (length queryDoc) + of_nat (length (Marshal w q'))\<rparr>)))
                       # es
                 \<and> written_bytes (events srv') =
                     written_bytes (events srv)
                       @ accepted srv
                           (ToWire (h\<lparr>MessageLength :=
                               MessageLength h - of_nat (length queryDoc) + of_nat (length (Marshal w q'))\<rparr>)
                            @ flags @ ns @ two @ Marshal w q')
                       @ more
          else cl' = cl
               \<and> written_bytes (events cli') =
                   written_bytes (events cli) @ accepted cli (errorReply w h (rejectionError coll) 17357))"
proof -
  note rule = checkForIndex_rule[OF chk]
  show ?thesis
  proof (cases b)
    case True
    from mut[OF True] obtain q' where
      m: "mutateQuery w p q (case RemoteAddr cli of Some a \<Rightarrow> a | None \<Rightarrow> ''unknown'') (uuid_New w) = Inr q'"
      ..
    let ?h = "h\<lparr>MessageLength := MessageLength h - of_nat (length queryDoc) + of_nat (length (Marshal w q'))\<rparr>"
    from chk True have adm: "checkForIndex w p db coll q = Inr True" by simp
    have "forwardQuery w p ?h c4 srv (ToWire ?h # [flags, ns, two, Marshal w q']) q' []
            (string_of (butlast ns)) cl = (r, cli', srv', cl')"
      using handleQueryRequest_admit[OF r1 r2 r3 r4 um nb ne sp adm m, of h srv cl] res by simp
    from forwardQuery_server[OF this] obtain es more where
      ev: "events srv' = events srv @ Wrote (accepted srv (ToWire ?h)) # es" and
      wb: "written_bytes (events srv') =
             written_bytes (events srv) @ accepted srv (concat (ToWire ?h # [flags, ns, two, Marshal w q'])) @ more"
      by blast
    from ev have neq: "srv' \<noteq> srv" by auto
    from wb have wb': "written_bytes (events srv') =
             written_bytes (events srv) @ accepted srv (ToWire ?h @ flags @ ns @ two @ Marshal w q') @ more"
      by simp
    from m ev wb' have "\<exists>q' es more.
                 mutateQuery w p q (case RemoteAddr cli of Some a \<Rightarrow> a | None \<Rightarrow> ''unknown'')
                   (uuid_New w) = Inr q'
                 \<and> events srv' =
                     events srv
                       @ Wrote (accepted srv
                           (ToWire (h\<lparr>MessageLength :=
                               MessageLength h - of_nat (length queryDoc) + of_nat (length (Marshal w q'))\<rparr>)))
                       # es
                 \<and> written_bytes (events srv') =
                     written_bytes (events srv)
                       @ accepted srv
                           (ToWire (h\<lparr>MessageLength :=
                               MessageLength h - of_nat (length queryDoc) + of_nat (length (Marshal w q'))\<rparr>)
                            @ flags @ ns @ two @ Marshal w q')
                       @ more" by blast
    with rule neq True show ?thesis by simp
  next
    case False
    from chk False have rej: "checkForIndex w p db coll q = Inr False" by simp
    obtain e c5 where se: "sendErrorToClient w h c4 (rejectionError coll) 17357 = (e, c5)"
      by (metis prod.exhaust)
    note E = sendErrorToClient_effect[OF se]
    have "handleQueryRequest w p h cli srv cl = (Inr e, c5, srv, cl)"
      using handleQueryRequest_reject[OF r1 r2 r3 r4 um nb ne sp rej, of h srv cl] se by simp
    with res have eqs: "cli' = c5" "srv' = srv" "cl' = cl" by simp_all
    note k4 = reads_keep[OF r1 r2 r3 r4]
    have ev4: "events c4 = events cli" by (subst k4) simp
    have room: "wr_room c4 = wr_room cli" by (subst k4) simp
    have wb: "written_bytes (events cli') =
                written_bytes (events cli) @ accepted cli (errorReply w h (rejectionError coll) 17357)"
      using E(1) by (simp add: eqs ev4 accepted_def room)
    with rule eqs False show ?thesis by simp
  qed
qed


text \<open>Scenario S6: the bare query on \<open>email\<close> is admitted through the index on \<open>email\<close>, and
  the first thing written to the server is the header with the new length 43.\<close>

theorem query_forwarded_iff_witness:
  "(fst (Count (backChannel S5_proxy) ''app'' ''users'') = 0
    \<or> (\<exists>index\<in>set (fst (Indexes (backChannel S5_proxy) ''app'' ''users'')). \<exists>k0 ks.
          Key index = k0 # ks
          \<and> EqualFold S_world (Trim k0 ''-'')
               (amended_firstIndexableField S_world [(''email'', String ''a@b'')])))
   \<and> (\<exists>es. events (fst (snd (snd (handleQueryRequest S_world S5_proxy S6_header S6_client S6_server []))))
             = events S6_server @ Wrote (ToWire (S6_header\<lparr>MessageLength := 43\<rparr>)) # es)"
proof -
  let ?X = "handleQueryRequest S_world S5_proxy S6_header S6_client S6_server []"
  have ne: "length [(''email'', String ''a@b'')] > 0" by simp
  have mu: "True \<Longrightarrow> \<exists>q'. mutateQuery S_world S5_proxy [(''email'', String ''a@b'')]
              (case RemoteAddr S6_client of Some a \<Rightarrow> a | None \<Rightarrow> ''unknown'') (uuid_New S_world) = Inr q'"
    by (simp add: S6_mutate)
  have res: "?X = (fst ?X, fst (snd ?X), fst (snd (snd ?X)), snd (snd (snd ?X)))" by simp
  have ml: "MessageLength S6_header - of_nat (length S1_doc) + of_nat (length [5, 0, 0, 0, 0 :: byte]) = 43"
    by (simp add: S6_header_def S1_doc_def)
  have md: "\<And>d. Marshal S_world d = [5, 0, 0, 0, 0]" by (simp add: S_world_def)
  have acc: "\<And>bs. accepted S6_server bs = bs" by (simp add: accepted_def S6_server_def idle_server_def)
  from query_forwarded_iff[OF S6_read_flags S6_read_namespace S6_read_counts S6_read_document
      S6_unmarshal users_not_bypass ne users_split S1_admit mu res]
  show ?thesis unfolding md ml acc by auto
qed

text \<open>
  Claim C3 as stated fails on \<open>{$query: {email: ...}}\<close> with no further entry: the
  specification's rule admits it through the index on \<open>email\<close>, the inspector rejects it.
\<close>

theorem checkForIndex_single_query_key_counterexample:
  "checkForIndex S_world S5_proxy ''app'' ''users'' [(''$query'', D [(''email'', String ''a@b'')])] = Inr False
   \<and> Count (backChannel S5_proxy) ''app'' ''users'' = (3, None)
   \<and> Indexes (backChannel S5_proxy) ''app'' ''users'' = ([\<lparr>Key = [''email'']\<rparr>], None)
   \<and> claimed_admission 3 [\<lparr>Key = [''email'']\<rparr>] [(''$query'', D [(''email'', String ''a@b'')])]"
  by (simp add: checkForIndex_def S5_proxy_def firstIndexableField_def claimed_admission_def
      claimed_firstIndexableField_def ascii_case_insensitive_eq_def TrimLeft_def Trim_def TrimRight_def)

section \<open>Properties of the upstream dialer\<close>








end
